theory Spec2Isabelle
  imports Main "HOL-Library.Word" "HOL-Library.Sublist"
begin

unbundle bit_operations_syntax

chapter \<open>GHOST agent: store, queue drainer, transport failover, throttler, supervisor\<close>

section \<open>Go values\<close>

text \<open>
  A Go call either returns its results (a result and an \<open>error\<close>, where \<open>nil\<close> is \<open>None\<close>)
  or panics. \<open>strings.Repeat\<close> panics on a negative count, \<open>strings.Contains\<close> looks for a
  contiguous run of bytes, \<open>strings.TrimSuffix\<close> removes one occurrence of the suffix and
  \<open>strings.ToLower\<close> is used by the agent only to compare with the ASCII word \<open>none\<close>, so
  it is modelled on the ASCII letters.
\<close>

datatype 'a go = Panic string | Return 'a

type_synonym error = "string option"

definition strings_Repeat :: "string \<Rightarrow> int \<Rightarrow> string go" where
  "strings_Repeat s n =
     (if n < 0 then Panic ''strings: negative Repeat count''
      else Return (concat (replicate (nat n) s)))"

fun has_prefix :: "string \<Rightarrow> string \<Rightarrow> bool" where
  "has_prefix s [] = True"
| "has_prefix [] (c # cs) = False"
| "has_prefix (x # xs) (c # cs) = (x = c \<and> has_prefix xs cs)"

fun strings_Contains :: "string \<Rightarrow> string \<Rightarrow> bool" where
  "strings_Contains [] substr = (substr = [])"
| "strings_Contains (x # xs) substr =
     (has_prefix (x # xs) substr \<or> strings_Contains xs substr)"

definition strings_TrimSuffix :: "string \<Rightarrow> string \<Rightarrow> string" where
  "strings_TrimSuffix s suf =
     (if suf \<noteq> [] \<and> length suf \<le> length s \<and> drop (length s - length suf) s = suf
      then take (length s - length suf) s else s)"

definition to_lower_char :: "char \<Rightarrow> char" where
  "to_lower_char c =
     (case map_of (zip ''ABCDEFGHIJKLMNOPQRSTUVWXYZ'' ''abcdefghijklmnopqrstuvwxyz'') c of
        Some l \<Rightarrow> l
      | None \<Rightarrow> c)"

definition strings_ToLower :: "string \<Rightarrow> string" where
  "strings_ToLower s = map to_lower_char s"

section \<open>Store: the message queue\<close>

text \<open>
  Table \<open>message_queue(post_string TEXT, post_uri TEXT, rowid INTEGER PRIMARY KEY ASC)\<close>.
  The table is a list of rows; a table that was never created and an empty one are the same
  list, because every operation of the store creates the table first. \<open>rolling_queue\<close> says
  whether the trigger of that name exists. \<open>io_error\<close> is the failure, if any, that the SQL
  driver answers to every \<open>Prepare\<close>, \<open>Exec\<close> and \<open>Query\<close> (a locked or unwritable file).
  \<open>rowid_pick\<close> is the random source of the engine: the candidate rowid on which its search
  for an unused rowid ends, for a given content of the table.
\<close>

record queue_row =
  post_string :: string
  post_uri :: string
  rowid :: int

record plugin_row =
  row_uuid :: string
  row_name :: string
  row_mode :: string
  row_process_name :: string
  row_process_id :: int
  row_current_manager :: int
  row_status :: string
  row_status_message :: string
  row_last_exit :: int
  row_last_start :: int

record database =
  io_error :: error
  message_queue :: "queue_row list"
  rolling_queue :: bool
  rowid_pick :: "queue_row list \<Rightarrow> int"
  plugins :: "plugin_row list"

definition sql_Prepare :: "database \<Rightarrow> error" where
  "sql_Prepare db = io_error db"

definition sql_Exec :: "database \<Rightarrow> error" where
  "sql_Exec db = io_error db"

definition sql_Query :: "database \<Rightarrow> error" where
  "sql_Query db = io_error db"

text \<open>\<open>Vacuum\<close>: \<open>VACUUM;\<close> changes no row.\<close>

definition Vacuum :: "database \<Rightarrow> database \<times> error" where
  "Vacuum db =
     (case sql_Prepare db of Some e \<Rightarrow> (db, Some e)
      | None \<Rightarrow> (db, sql_Exec db))"

text \<open>
  \<open>MessageQueueCreateTable\<close>: \<open>CREATE TABLE IF NOT EXISTS message_queue\<close>, then
  \<open>CREATE TRIGGER IF NOT EXISTS rolling_queue AFTER INSERT ON message_queue\<close>.
\<close>

definition MessageQueueCreateTable :: "database \<Rightarrow> database \<times> error" where
  "MessageQueueCreateTable db =
     (case sql_Prepare db of Some e \<Rightarrow> (db, Some e)
      | None \<Rightarrow>
     (case sql_Exec db of Some e \<Rightarrow> (db, Some e)
      | None \<Rightarrow>
     (case sql_Prepare db of Some e \<Rightarrow> (db, Some e)
      | None \<Rightarrow>
     (case sql_Exec db of Some e \<Rightarrow> (db, Some e)
      | None \<Rightarrow> (db\<lparr>rolling_queue := True\<rparr>, None)))))"

text \<open>
  The body of the trigger:
  \<open>DELETE FROM message_queue WHERE rowid <= (SELECT rowid FROM message_queue ORDER BY rowid
  DESC LIMIT 20000, 1)\<close>. The subquery skips the 20000 largest rowids and yields the next
  one; with 20000 rows or fewer it yields no row, the comparison is NULL and nothing is
  deleted.
\<close>

definition QUEUE_CAP :: nat where
  "QUEUE_CAP = 20000"

definition rolling_queue_trigger :: "queue_row list \<Rightarrow> queue_row list" where
  "rolling_queue_trigger q =
     (case drop QUEUE_CAP (rev (sort (map rowid q))) of
        [] \<Rightarrow> q
      | r # _ \<Rightarrow> filter (\<lambda>x. \<not> rowid x \<le> r) q)"

text \<open>
  The rowid SQLite gives a row inserted without one into a table whose key is
  \<open>INTEGER PRIMARY KEY\<close> without \<open>AUTOINCREMENT\<close>: 1 in an empty table, otherwise the largest
  rowid plus one. When the largest rowid is the largest 64-bit value, the engine draws
  positive candidates of at most 62 bits at random until one is unused; when the search
  ends on a used one the statement fails with \<open>database or disk is full\<close>. The row is
  stored at its place in the order of the rowids.
\<close>

definition MAX_ROWID :: int where
  "MAX_ROWID = 9223372036854775807"

definition max_rowid :: "queue_row list \<Rightarrow> int" where
  "max_rowid q = fold max (map rowid q) (rowid (hd q))"

definition sql_new_rowid :: "database \<Rightarrow> int option" where
  "sql_new_rowid db =
     (let q = message_queue db
      in if q = [] then Some 1
         else if max_rowid q < MAX_ROWID then Some (max_rowid q + 1)
         else
           (let v = rowid_pick db q
            in if 0 < v \<and> v \<le> 4611686018427387904 \<and> v \<notin> set (map rowid q) then Some v
               else None))"

definition sql_insert_queue_row :: "database \<Rightarrow> string \<Rightarrow> string \<Rightarrow> database \<times> error" where
  "sql_insert_queue_row db postString postURI =
     (case sql_new_rowid db of
        None \<Rightarrow> (db, Some ''database or disk is full'')
      | Some r \<Rightarrow>
          (let q' = insort_key rowid
                      \<lparr>post_string = postString, post_uri = postURI, rowid = r\<rparr>
                      (message_queue db)
           in (db\<lparr>message_queue := (if rolling_queue db then rolling_queue_trigger q' else q')\<rparr>,
               None)))"

definition MessageQueueInsert :: "database \<Rightarrow> string \<Rightarrow> string \<Rightarrow> database \<times> error" where
  "MessageQueueInsert db postString postURI =
     (case MessageQueueCreateTable db of
        (db1, Some e) \<Rightarrow> (db1, Some e)
      | (db1, None) \<Rightarrow>
          (case sql_Prepare db1 of Some e \<Rightarrow> (db1, Some e)
           | None \<Rightarrow>
               (case sql_Exec db1 of Some e \<Rightarrow> (db1, Some e)
                | None \<Rightarrow> sql_insert_queue_row db1 postString postURI)))"

text \<open>
  \<open>MessageQueueSelectURI\<close>: \<open>SELECT rowid, post_string FROM message_queue ORDER BY ROWID
  LIMIT 100\<close>; the statement has no \<open>WHERE\<close> and the argument \<open>uri\<close> is not bound. The loop
  over the result appends a payload unless it is empty and a rowid unless it is 0.
\<close>

fun scan_rows :: "queue_row list \<Rightarrow> string list \<Rightarrow> int list \<Rightarrow> string list \<times> int list" where
  "scan_rows [] outMsgs rowIds = (outMsgs, rowIds)"
| "scan_rows (r # rs) outMsgs rowIds =
     scan_rows rs
       (if post_string r \<noteq> [] then outMsgs @ [post_string r] else outMsgs)
       (if rowid r \<noteq> 0 then rowIds @ [rowid r] else rowIds)"

definition selected_rows :: "database \<Rightarrow> queue_row list" where
  "selected_rows db = take 100 (sort_key rowid (message_queue db))"

definition MessageQueueSelectURI ::
  "database \<Rightarrow> string \<Rightarrow> database \<times> string list \<times> int list \<times> error" where
  "MessageQueueSelectURI db uri =
     (case MessageQueueCreateTable db of
        (db1, Some e) \<Rightarrow> (db1, [], [], Some e)
      | (db1, None) \<Rightarrow>
          (case sql_Prepare db1 of Some e \<Rightarrow> (db1, [], [], Some e)
           | None \<Rightarrow>
               (case sql_Query db1 of Some e \<Rightarrow> (db1, [], [], Some e)
                | None \<Rightarrow>
                    (case scan_rows (selected_rows db1) [] [] of
                       (outMsgs, rowIds) \<Rightarrow> (db1, outMsgs, rowIds, None)))))"

text \<open>
  \<open>MessageQueueDelete\<close>: the statement text is built with
  \<open>strings.Repeat(",?", len(rowIds)-1)\<close> before it is prepared;
  \<open>DELETE FROM message_queue WHERE rowid IN (?,...,?)\<close> removes the rows whose rowid is one
  of the arguments and reports how many rows it removed.
\<close>

definition MessageQueueDelete :: "database \<Rightarrow> int list \<Rightarrow> (database \<times> int \<times> error) go" where
  "MessageQueueDelete db rowIds =
     (case MessageQueueCreateTable db of
        (db1, Some e) \<Rightarrow> Return (db1, 0, Some e)
      | (db1, None) \<Rightarrow>
          (case strings_Repeat '',?'' (int (length rowIds) - 1) of
             Panic m \<Rightarrow> Panic m
           | Return marks \<Rightarrow>
               (case sql_Prepare db1 of Some e \<Rightarrow> Return (db1, 0, Some e)
                | None \<Rightarrow>
                    (case sql_Exec db1 of Some e \<Rightarrow> Return (db1, 0, Some e)
                     | None \<Rightarrow>
                         Return
                           (db1\<lparr>message_queue :=
                                  filter (\<lambda>x. rowid x \<notin> set rowIds) (message_queue db1)\<rparr>,
                            int (length (filter (\<lambda>x. rowid x \<in> set rowIds) (message_queue db1))),
                            None)))))"

text \<open>
  The invariants of the table: it is stored in the order of its primary key \<open>rowid\<close>, no
  two rows share a rowid, and the rowids the engine hands out are positive.
\<close>

definition queue_wf :: "queue_row list \<Rightarrow> bool" where
  "queue_wf q = (sorted_wrt (<) (map rowid q) \<and> (\<forall>x \<in> set q. 0 < rowid x))"

section \<open>Transport: \<open>Send\<close>\<close>

text \<open>
  What the HTTP client and the controller answer to one request: \<open>httpClient.Do\<close> fails, or
  reading the body fails, or a response arrives with its \<open>StatusCode\<close>, its \<open>Status\<close> (the
  text of the status line after the protocol, such as \<open>200 OK\<close>, as the server wrote it) and
  its body. Of the body only what \<open>Send\<close> looks at is kept: it is not a JSON map of strings,
  or its signature does not verify, or it carries the signed \<open>jsonString\<close>. The key
  material of the agent is taken to be well-formed, so that signing and verifying do not
  end the process.
\<close>

datatype http_body = Undecodable string | BadSignature | Signed string

datatype http_exchange = DoError string | ReadAllError string | Response int string http_body

definition Send :: "string \<Rightarrow> string \<Rightarrow> http_exchange \<Rightarrow> string \<times> error" where
  "Send message uri ex =
     (case ex of
        DoError e \<Rightarrow> ([], Some (''NETWORK ERROR: '' @ e))
      | ReadAllError e \<Rightarrow> ([], Some (''Unable to read body response: '' @ e))
      | Response StatusCode Status body \<Rightarrow>
          (if StatusCode \<noteq> 200 then ([], Some (''Received bad status: '' @ Status))
           else
             (case body of
                Undecodable e \<Rightarrow> ([], Some (''Unable to unmarshal payload map: '' @ e))
              | Signed jsonString \<Rightarrow> (jsonString, None)
              | BadSignature \<Rightarrow> ([], Some ''unable to verify response signature''))))"

definition http_status :: "http_exchange \<Rightarrow> int option" where
  "http_status ex = (case ex of Response StatusCode Status body \<Rightarrow> Some StatusCode | _ \<Rightarrow> None)"

section \<open>Queue drainer\<close>

text \<open>
  One iteration of the loop of \<open>MessageQueueManager\<close>. \<open>marshal\<close> is \<open>json.Marshal\<close> on the
  list of payloads, \<open>ex\<close> is the answer to the POST, should one be made. The batch is selected
  under the failure state of the SQL driver that the store is in; \<open>io_later\<close> is the failure,
  if any, that the driver answers from then on, to the delete and to \<open>Vacuum\<close> (the file may
  become locked or unwritable while the batch is marshalled and posted). The events are the
  calls the iteration makes beside the store: the POST, \<open>Vacuum\<close> and the sleep. A panic of
  the store ends the goroutine and with it the agent. Log lines are left out.
\<close>

datatype drain_event = Posted string string | Vacuumed | Slept_PollTime | Slept_1s

definition bad_status_code :: "string \<Rightarrow> bool" where
  "bad_status_code e =
     (strings_Contains e ''500 Internal Server Error'' \<or> strings_Contains e ''400 Bad Request'')"

text \<open>
  The condition under which the iteration removes the batch: \<open>Send\<close> returned no error, or
  an error whose text holds one of the two status lines.
\<close>

definition removes_batch :: "error \<Rightarrow> bool" where
  "removes_batch err = (case err of None \<Rightarrow> True | Some e \<Rightarrow> bad_status_code e)"

definition remove_messages :: "database \<Rightarrow> int list \<Rightarrow> database go" where
  "remove_messages db rowIds =
     (case MessageQueueDelete db rowIds of
        Panic m \<Rightarrow> Panic m
      | Return (db1, n, err) \<Rightarrow> Return db1)"

definition MessageQueueManager_iter ::
  "(string list \<Rightarrow> string \<times> error) \<Rightarrow> http_exchange \<Rightarrow> error \<Rightarrow> database \<Rightarrow>
   (database \<times> drain_event list) go" where
  "MessageQueueManager_iter marshal ex io_later db =
     (case MessageQueueSelectURI db ''/core/pluginlog/'' of
        (db1, messages, rowIds, err) \<Rightarrow>
          if length messages = 0 then Return (fst (Vacuum db1), [Vacuumed, Slept_PollTime])
          else
            (case marshal messages of
               (msgBytes, Some e) \<Rightarrow>
                 (case remove_messages (db1\<lparr>io_error := io_later\<rparr>) rowIds of
                    Panic m \<Rightarrow> Panic m
                  | Return db2 \<Rightarrow> Return (db2, [Slept_PollTime]))
             | (msgBytes, None) \<Rightarrow>
                 (case Send msgBytes ''/core/pluginlog/'' ex of
                    (resp, err) \<Rightarrow>
                      (case (case err of
                               Some e \<Rightarrow>
                                 if bad_status_code e
                                 then remove_messages (db1\<lparr>io_error := io_later\<rparr>) rowIds
                                 else Return (db1\<lparr>io_error := io_later\<rparr>)
                             | None \<Rightarrow> remove_messages (db1\<lparr>io_error := io_later\<rparr>) rowIds) of
                         Panic m \<Rightarrow> Panic m
                       | Return db2 \<Rightarrow>
                           if 100 \<le> length messages
                           then Return (db2, [Posted msgBytes ''/core/pluginlog/'', Slept_1s])
                           else Return (fst (Vacuum db2),
                                        [Posted msgBytes ''/core/pluginlog/'', Vacuumed,
                                         Slept_PollTime])))))"

text \<open>
  The loop never ends by itself; it is run here on a finite number of iterations, each
  given by the failure state of the driver when the iteration starts, the answer of the
  controller to its POST and the failure state of the driver from then on.
\<close>

fun MessageQueueManager ::
  "(string list \<Rightarrow> string \<times> error) \<Rightarrow> (error \<times> http_exchange \<times> error) list \<Rightarrow> database \<Rightarrow>
   (database \<times> drain_event list) go" where
  "MessageQueueManager marshal [] db = Return (db, [])"
| "MessageQueueManager marshal ((io_first, ex, io_later) # exs) db =
     (case MessageQueueManager_iter marshal ex io_later (db\<lparr>io_error := io_first\<rparr>) of
        Panic m \<Rightarrow> Panic m
      | Return (db1, evs) \<Rightarrow>
          (case MessageQueueManager marshal exs db1 of
             Panic m \<Rightarrow> Panic m
           | Return (db2, evs') \<Rightarrow> Return (db2, evs @ evs')))"

definition plain_marshal :: "string list \<Rightarrow> string \<times> error" where
  "plain_marshal messages = (''['' @ concat messages @ '']'', None)"


section \<open>Transport: endpoint and proxy failover\<close>

text \<open>
  Of the \<open>Sender\<close> the failover touches the pinned pair, \<open>ControllerURL\<close> and \<open>Proxy\<close>. A
  proxy setting that is empty or \<open>none\<close> in any case means a direct connection.

  The network is a function: given the pairs tested so far and the pair under test, it
  says what happens to \<open>GET <controller>/core/conntest/\<close> through that proxy.
  \<open>RequestInvalid\<close> is \<open>http.NewRequest\<close> refusing the URL, after which \<open>Log.Fatal\<close> ends the
  process; \<open>BodyJSON v\<close> is a body that decodes to a map of strings whose entry \<open>status\<close> is
  \<open>v\<close> (empty when there is none).
\<close>

record sender =
  ControllerURL :: string
  Proxy :: string

datatype conntest_exchange = RequestInvalid | ConnError string | BodyNotJSON | BodyJSON string

type_synonym conn_pair = "string \<times> string"

type_synonym network = "conn_pair list \<Rightarrow> conn_pair \<Rightarrow> conntest_exchange"

definition uses_proxy :: "string \<Rightarrow> bool" where
  "uses_proxy p = (p \<noteq> [] \<and> strings_ToLower p \<noteq> ''none'')"

text \<open>
  \<open>TestConnection\<close> strips one trailing slash from \<open>ControllerURL\<close> and keeps the stripped
  value in the sender. The result \<open>None\<close> is the end of the process; otherwise the answer,
  the sender and the list of tested pairs, one longer.
\<close>

definition TestConnection ::
  "network \<Rightarrow> sender \<Rightarrow> conn_pair list \<Rightarrow> (bool \<times> sender \<times> conn_pair list) option" where
  "TestConnection net s tested =
     (let s1 = s\<lparr>ControllerURL := strings_TrimSuffix (ControllerURL s) ''/''\<rparr>;
          pair = (ControllerURL s1, Proxy s1)
      in case net tested pair of
           RequestInvalid \<Rightarrow> None
         | ConnError e \<Rightarrow> Some (False, s1, tested @ [pair])
         | BodyNotJSON \<Rightarrow> Some (False, s1, tested @ [pair])
         | BodyJSON v \<Rightarrow> Some (v = ''success'', s1, tested @ [pair]))"

text \<open>The inner loop of \<open>UpdateConnection\<close>, over the proxy list.\<close>

fun try_proxies ::
  "network \<Rightarrow> string list \<Rightarrow> sender \<Rightarrow> conn_pair list \<Rightarrow>
   (bool \<times> sender \<times> conn_pair list) option" where
  "try_proxies net [] s tested = Some (False, s, tested)"
| "try_proxies net (P # Ps) s tested =
     (case TestConnection net (s\<lparr>Proxy := P\<rparr>) tested of
        None \<Rightarrow> None
      | Some (ok, s1, tested1) \<Rightarrow>
          if ok then Some (True, s1, tested1) else try_proxies net Ps s1 tested1)"

text \<open>The outer loop, over the controller list.\<close>

fun try_controllers ::
  "network \<Rightarrow> string list \<Rightarrow> string list \<Rightarrow> sender \<Rightarrow> conn_pair list \<Rightarrow>
   (bool \<times> sender \<times> conn_pair list) option" where
  "try_controllers net proxyList [] s tested = Some (False, s, tested)"
| "try_controllers net proxyList (C # Cs) s tested =
     (case TestConnection net (s\<lparr>ControllerURL := C\<rparr>) tested of
        None \<Rightarrow> None
      | Some (ok1, s1, tested1) \<Rightarrow>
          if ok1 then Some (True, s1, tested1)
          else
            (case (if uses_proxy (Proxy s1) then TestConnection net (s1\<lparr>Proxy := []\<rparr>) tested1
                   else Some (False, s1, tested1)) of
               None \<Rightarrow> None
             | Some (ok2, s2, tested2) \<Rightarrow>
                 if ok2 then Some (True, s2, tested2)
                 else
                   (case try_proxies net proxyList s2 tested2 of
                      None \<Rightarrow> None
                    | Some (ok3, s3, tested3) \<Rightarrow>
                        if ok3 then Some (True, s3, tested3)
                        else try_controllers net proxyList Cs s3 tested3)))"

definition UpdateConnection ::
  "network \<Rightarrow> sender \<Rightarrow> conn_pair list \<Rightarrow> string list \<Rightarrow> string list \<Rightarrow>
   (bool \<times> sender \<times> conn_pair list) option" where
  "UpdateConnection net s tested proxyList controllerList =
     (let oldProxy = Proxy s; oldcontrollerURL = ControllerURL s
      in case try_controllers net proxyList controllerList s tested of
           None \<Rightarrow> None
         | Some (ok, s1, tested1) \<Rightarrow>
             if ok then Some (True, s1, tested1)
             else Some (False, s1\<lparr>Proxy := oldProxy, ControllerURL := oldcontrollerURL\<rparr>, tested1))"

text \<open>
  The order in which the loops of \<open>UpdateConnection\<close> test: for each controller in list
  order, first the proxy that the sender holds when the controller is reached, then no proxy
  (when the held one is a proxy), then each proxy in list order. The loops write every proxy
  they try into the sender and never write the old one back between controllers, so the
  proxy held when the next controller is reached is the one tried last.
\<close>

fun tested_order :: "string \<Rightarrow> string list \<Rightarrow> string list \<Rightarrow> conn_pair list" where
  "tested_order held proxyList [] = []"
| "tested_order held proxyList (C # Cs) =
     (let direct = (if uses_proxy held then [[]] else []);
          tried = held # direct @ proxyList
      in map (Pair C) tried @ tested_order (last tried) proxyList Cs)"

text \<open>
  The order of the specification of \<open>refresh\<close>, in its words: for each controller in list
  order, first the currently-selected proxy, that is the one selected when \<open>refresh\<close> is
  called, then no proxy (a step of its own when the selected one is a proxy), then each
  proxy in list order.
\<close>

definition refresh_order :: "string \<Rightarrow> string list \<Rightarrow> string list \<Rightarrow> conn_pair list" where
  "refresh_order selected proxyList controllerList =
     concat (map (\<lambda>C. map (Pair C)
                         (selected # (if uses_proxy selected then [[]] else []) @ proxyList))
               controllerList)"

text \<open>
  A tested pair names its controller up to trailing slashes, since each test strips one
  from the URL it is given.
\<close>

definition trim_slashes :: "string \<Rightarrow> string" where
  "trim_slashes u = rev (dropWhile (\<lambda>c. c = CHR ''/'') (rev u))"

definition endpoint :: "conn_pair \<Rightarrow> conn_pair" where
  "endpoint pair = (trim_slashes (fst pair), snd pair)"

text \<open>
  The network answers \<open>{"status":"success"}\<close> to a pair, given the pairs tested before; a
  list of pairs tested one after the other all failed.
\<close>

definition conntest_succeeds :: "network \<Rightarrow> conn_pair list \<Rightarrow> conn_pair \<Rightarrow> bool" where
  "conntest_succeeds net tested pair = (net tested pair = BodyJSON ''success'')"

fun all_failed :: "network \<Rightarrow> conn_pair list \<Rightarrow> conn_pair list \<Rightarrow> bool" where
  "all_failed net tested [] = True"
| "all_failed net tested (pair # pairs) =
     (\<not> conntest_succeeds net tested pair \<and> all_failed net (tested @ [pair]) pairs)"

text \<open>
  What a stretch of the failover did, from the pairs \<open>tested\<close> to its result, against the
  pairs \<open>planned\<close> for it: it tested a prefix of them; it stopped at the first success,
  which is the pinned pair, or it tested all of them and all failed.
\<close>

definition test_run ::
  "network \<Rightarrow> conn_pair list \<Rightarrow> bool \<times> sender \<times> conn_pair list \<Rightarrow> conn_pair list \<Rightarrow> bool" where
  "test_run net tested res planned =
     (case res of
        (ok, s', tested') \<Rightarrow>
          (\<exists>new. tested' = tested @ new \<and>
             (if ok
              then prefix (map endpoint new) planned \<and>
                   (\<exists>fails. new = fails @ [(ControllerURL s', Proxy s')] \<and>
                      all_failed net tested fails \<and>
                      conntest_succeeds net (tested @ fails) (ControllerURL s', Proxy s'))
              else map endpoint new = planned \<and> all_failed net tested new)))"

text \<open>A network in which only the controller \<open>https://b\<close> answers, and only directly.\<close>

definition only_b_direct :: network where
  "only_b_direct tested pair =
     (if pair = (''https://b'', []) then BodyJSON ''success'' else ConnError ''refused'')"

text \<open>
  A network in which only the controller \<open>https://b\<close> answers, and only through the proxy
  \<open>http://p0\<close>.
\<close>

definition only_b_p0 :: network where
  "only_b_p0 tested pair =
     (if pair = (''https://b'', ''http://p0'') then BodyJSON ''success''
      else ConnError ''refused'')"

section \<open>Throttler\<close>

text \<open>
  \<open>MonitorCpu\<close> polls its \<open>quit\<close> channel at the top of every iteration (\<open>select\<close> with a
  \<open>default\<close> branch): a tick of the loop either finds a value on the channel or finds none
  and throttles once, with the outcomes of the system calls of that round. The model keeps
  the calls made on the child process and the sleeps, in order. The length of the sleep
  between suspend and resume is floating-point arithmetic on the measured CPU share; it
  decides no call and is left out.
\<close>

datatype throttle_call = Suspend error | ThrottleSleep | Resume error | Sleep200ms

datatype 'sys tick = QuitReceived | NoQuit 'sys

datatype monitor_state = Looping | Returned error

text \<open>
  Darwin: \<open>Process.Percent\<close>, \<open>Process.Suspend\<close> and \<open>Process.Resume\<close> may each fail;
  \<open>ThrottleCpu\<close> returns at the first failure.
\<close>

record darwin_sys =
  percent_err :: error
  suspend_err :: error
  resume_err :: error

definition ThrottleCpu_darwin :: "darwin_sys \<Rightarrow> throttle_call list \<times> error" where
  "ThrottleCpu_darwin sys =
     (case percent_err sys of
        Some e \<Rightarrow> ([], Some e)
      | None \<Rightarrow>
          (case suspend_err sys of
             Some e \<Rightarrow> ([Suspend (Some e)], Some e)
           | None \<Rightarrow>
               (case resume_err sys of
                  Some e \<Rightarrow> ([Suspend None, ThrottleSleep, Resume (Some e)], Some e)
                | None \<Rightarrow> ([Suspend None, ThrottleSleep, Resume None], None))))"

fun MonitorCpu_darwin :: "darwin_sys tick list \<Rightarrow> throttle_call list \<times> monitor_state" where
  "MonitorCpu_darwin [] = ([], Looping)"
| "MonitorCpu_darwin (QuitReceived # ticks) = ([], Returned None)"
| "MonitorCpu_darwin (NoQuit sys # ticks) =
     (case MonitorCpu_darwin ticks of
        (calls, st) \<Rightarrow> (fst (ThrottleCpu_darwin sys) @ Sleep200ms # calls, st))"

text \<open>
  Windows: \<open>OpenProcess\<close> may fail before the loop; in a round \<open>GetProcessTimes\<close> and the two
  calls of \<open>FileTimeToSystemTime\<close> may fail; what \<open>NtSuspendProcess\<close> and \<open>NtResumeProcess\<close>
  return is not looked at.
\<close>

record windows_sys =
  times_err :: error
  user_time_ok :: bool
  kernel_time_ok :: bool

definition ThrottleCpu_windows :: "windows_sys \<Rightarrow> throttle_call list \<times> error" where
  "ThrottleCpu_windows sys =
     (case times_err sys of
        Some e \<Rightarrow> ([], Some e)
      | None \<Rightarrow>
          if \<not> user_time_ok sys then ([], Some ''unable to call FileTimeToSystemTime (1)'')
          else if \<not> kernel_time_ok sys then ([], Some ''unable to call FileTimeToSystemTime (2)'')
          else ([Suspend None, ThrottleSleep, Resume None], None))"

fun MonitorCpu_windows_loop :: "windows_sys tick list \<Rightarrow> throttle_call list \<times> monitor_state" where
  "MonitorCpu_windows_loop [] = ([], Looping)"
| "MonitorCpu_windows_loop (QuitReceived # ticks) = ([], Returned None)"
| "MonitorCpu_windows_loop (NoQuit sys # ticks) =
     (case MonitorCpu_windows_loop ticks of
        (calls, st) \<Rightarrow> (fst (ThrottleCpu_windows sys) @ Sleep200ms # calls, st))"

definition MonitorCpu_windows ::
  "error \<Rightarrow> windows_sys tick list \<Rightarrow> throttle_call list \<times> monitor_state" where
  "MonitorCpu_windows open_err ticks =
     (case open_err of
        Some e \<Rightarrow> ([], Returned (Some e))
      | None \<Rightarrow> MonitorCpu_windows_loop ticks)"

text \<open>
  A trace of calls leaves no suspension open when every suspend that took effect is
  followed by the sleep and the resume of its round.
\<close>

fun suspends_resumed :: "throttle_call list \<Rightarrow> bool" where
  "suspends_resumed [] = True"
| "suspends_resumed (Suspend None # ThrottleSleep # Resume r # calls) = suspends_resumed calls"
| "suspends_resumed (Suspend (Some e) # calls) = suspends_resumed calls"
| "suspends_resumed (Sleep200ms # calls) = suspends_resumed calls"
| "suspends_resumed calls = False"

definition resumes_issued :: "throttle_call list \<Rightarrow> nat" where
  "resumes_issued calls = length (filter (\<lambda>c. case c of Resume r \<Rightarrow> True | _ \<Rightarrow> False) calls)"

section \<open>Plugins: records, the plugins table, the process table\<close>

text \<open>
  Times are nanoseconds since the Unix epoch; \<open>time.Time{}\<close> is the first instant of year 1.
  A \<open>time.Duration\<close> is a signed 64-bit count of nanoseconds and a Go \<open>int\<close> has 64 bits on
  the platforms of the agent, so \<open>time.Second * time.Duration(n)\<close> is a product of 64-bit
  words and wraps around.
\<close>

definition zero_time :: int where
  "zero_time = - 62135596800000000000"

definition time_Second :: "64 word" where
  "time_Second = 1000000000"

definition time_Add :: "int \<Rightarrow> 64 word \<Rightarrow> int" where
  "time_Add t d = t + sint d"

definition time_After :: "int \<Rightarrow> int \<Rightarrow> bool" where
  "time_After t u = (u < t)"

text \<open>
  The fields of \<open>Plugin\<close> that the supervisor, the adopter and the store read or write. The
  command line, the working directory and the resource files are used by the launch only.
\<close>

record Plugin =
  Name :: string
  Mode :: string
  LaunchFrequency :: "64 word"
  UUID :: string
  CPULimit :: nat
  RetryFailure :: bool
  Status :: string
  StatusMessage :: string
  ProcessName :: string
  ProcessID :: int
  LastStart :: int
  LastExit :: int
  CurrentManager :: int

definition zero_Plugin :: Plugin where
  "zero_Plugin =
     \<lparr>Name = [], Mode = [], LaunchFrequency = 0, UUID = [], CPULimit = 0, RetryFailure = False,
      Status = [], StatusMessage = [], ProcessName = [], ProcessID = 0,
      LastStart = zero_time, LastExit = zero_time, CurrentManager = 0\<rparr>"

definition row_of_Plugin :: "Plugin \<Rightarrow> plugin_row" where
  "row_of_Plugin p =
     \<lparr>row_uuid = UUID p, row_name = Name p, row_mode = Mode p,
      row_process_name = ProcessName p, row_process_id = ProcessID p,
      row_current_manager = CurrentManager p, row_status = Status p,
      row_status_message = StatusMessage p, row_last_exit = LastExit p,
      row_last_start = LastStart p\<rparr>"

definition PluginCreateTable :: "database \<Rightarrow> error" where
  "PluginCreateTable db =
     (case sql_Prepare db of Some e \<Rightarrow> Some e | None \<Rightarrow> sql_Exec db)"

text \<open>
  \<open>PluginInsert\<close>: \<open>UPDATE plugins SET ... WHERE uuid=?\<close>, whose result is not looked at, then
  \<open>INSERT OR IGNORE INTO plugins\<close>, which the unique \<open>uuid\<close> turns into nothing when the row
  exists.
\<close>

definition sql_upsert_plugin :: "plugin_row list \<Rightarrow> plugin_row \<Rightarrow> plugin_row list" where
  "sql_upsert_plugin rows r =
     (if row_uuid r \<in> set (map row_uuid rows)
      then map (\<lambda>x. if row_uuid x = row_uuid r then r else x) rows
      else rows @ [r])"

definition PluginInsert :: "database \<Rightarrow> Plugin \<Rightarrow> database \<times> error" where
  "PluginInsert db p =
     (case PluginCreateTable db of
        Some e \<Rightarrow> (db, Some e)
      | None \<Rightarrow>
          (case sql_Prepare db of
             Some e \<Rightarrow> (db, Some e)
           | None \<Rightarrow>
               (case sql_Prepare db of
                  Some e \<Rightarrow> (db, Some e)
                | None \<Rightarrow>
                    (case sql_Exec db of
                       Some e \<Rightarrow> (db, Some e)
                     | None \<Rightarrow>
                         (db\<lparr>plugins := sql_upsert_plugin (plugins db) (row_of_Plugin p)\<rparr>,
                          None)))))"

text \<open>
  \<open>PluginSelectUUID\<close>: the first row with that uuid, or the zero \<open>Plugin\<close>. The two times are
  parsed only when the uuid that was read is not empty.
\<close>

definition PluginSelectUUID :: "database \<Rightarrow> string \<Rightarrow> Plugin \<times> error" where
  "PluginSelectUUID db uuid =
     (case PluginCreateTable db of
        Some e \<Rightarrow> (zero_Plugin, Some e)
      | None \<Rightarrow>
          (case sql_Prepare db of
             Some e \<Rightarrow> (zero_Plugin, Some e)
           | None \<Rightarrow>
               (case sql_Query db of
                  Some e \<Rightarrow> (zero_Plugin, Some e)
                | None \<Rightarrow>
                    (case find (\<lambda>r. row_uuid r = uuid) (plugins db) of
                       None \<Rightarrow> (zero_Plugin, None)
                     | Some r \<Rightarrow>
                         (let p = zero_Plugin
                                    \<lparr>UUID := row_uuid r, Name := row_name r, Mode := row_mode r,
                                     ProcessName := row_process_name r,
                                     ProcessID := row_process_id r, Status := row_status r,
                                     StatusMessage := row_status_message r,
                                     CurrentManager := row_current_manager r\<rparr>
                          in if UUID p = [] then (p, None)
                             else (p\<lparr>LastExit := row_last_exit r,
                                     LastStart := row_last_start r\<rparr>, None))))))"

text \<open>
  \<open>PluginSelectStatus\<close>: \<open>WHERE status LIKE '%' || status || '%'\<close>, which for a pattern of
  letters is containment without regard to ASCII case. The column \<open>current_manager\<close> is not
  selected, and rows with an empty uuid are skipped.
\<close>

definition sql_like_contains :: "string \<Rightarrow> string \<Rightarrow> bool" where
  "sql_like_contains s pat = strings_Contains (strings_ToLower s) (strings_ToLower pat)"

definition PluginSelectStatus :: "database \<Rightarrow> string \<Rightarrow> Plugin list \<times> error" where
  "PluginSelectStatus db status =
     (case PluginCreateTable db of
        Some e \<Rightarrow> ([], Some e)
      | None \<Rightarrow>
          (case sql_Prepare db of
             Some e \<Rightarrow> ([], Some e)
           | None \<Rightarrow>
               (case sql_Query db of
                  Some e \<Rightarrow> ([], Some e)
                | None \<Rightarrow>
                    (map (\<lambda>r. zero_Plugin
                                 \<lparr>UUID := row_uuid r, Name := row_name r, Mode := row_mode r,
                                  ProcessName := row_process_name r,
                                  ProcessID := row_process_id r, Status := row_status r,
                                  StatusMessage := row_status_message r,
                                  LastExit := row_last_exit r, LastStart := row_last_start r\<rparr>)
                       (filter (\<lambda>r. row_uuid r \<noteq> [])
                          (filter (\<lambda>r. sql_like_contains (row_status r) status) (plugins db))),
                     None))))"

text \<open>
  The world of the supervisor: the store, the process table of the host (process id to
  executable name), the failure, if any, of listing the processes, and the process ids the
  agent has sent a kill to, latest last.
\<close>

record world =
  store :: database
  procs :: "int \<Rightarrow> string option"
  ps_error :: error
  kills :: "int list"

definition FindProcess :: "world \<Rightarrow> int \<Rightarrow> string option \<times> error" where
  "FindProcess w pid =
     (case ps_error w of Some e \<Rightarrow> (None, Some e) | None \<Rightarrow> (procs w pid, None))"

definition Kill :: "int \<Rightarrow> world \<Rightarrow> world" where
  "Kill pid w = w\<lparr>procs := (procs w)(pid := None), kills := kills w @ [pid]\<rparr>"

definition IsRunning :: "Plugin \<Rightarrow> world \<Rightarrow> bool \<times> error" where
  "IsRunning p w =
     (case PluginSelectUUID (store w) (UUID p) of
        (storedPlugin, Some e) \<Rightarrow> (False, Some e)
      | (storedPlugin, None) \<Rightarrow>
          if Status storedPlugin \<noteq> ''running'' then (False, None)
          else if ProcessID storedPlugin = 0 \<or> ProcessName storedPlugin = [] then (False, None)
          else
            (case FindProcess w (ProcessID storedPlugin) of
               (proc, Some e) \<Rightarrow> (False, None)
             | (None, None) \<Rightarrow> (False, None)
             | (Some exe, None) \<Rightarrow>
                 if exe \<noteq> ProcessName storedPlugin then (False, None) else (True, None)))"

section \<open>Supervisor\<close>

text \<open>
  The body of the loop of \<open>PluginManager\<close> over the configured plugins, in three parts as in
  the source: the decision (the flags \<open>launchPlugin\<close> and \<open>resumeManaging\<close>, or \<open>continue\<close>),
  the start of the launch or adoption, and the removal of running plugins that are not in
  the configuration. \<open>None\<close> is \<open>continue\<close>: the rest of the body is skipped.
\<close>

definition oneshot_rule :: "Plugin \<Rightarrow> Plugin \<Rightarrow> bool \<times> bool \<Rightarrow> (bool \<times> bool) option" where
  "oneshot_rule plugin p flags =
     (if Mode plugin = ''oneshot'' then
        (if Status p = [] then Some (True, snd flags)
         else if Status p = ''error'' then
           (if RetryFailure plugin then Some (True, snd flags) else None)
         else Some flags)
      else Some flags)"

definition persistent_rule ::
  "int \<Rightarrow> Plugin \<Rightarrow> Plugin \<Rightarrow> world \<Rightarrow> bool \<times> bool \<Rightarrow> (bool \<times> bool) option" where
  "persistent_rule currentManager plugin p w flags =
     (if Mode plugin = ''persistent'' then
        (case IsRunning plugin w of
           (isRunning, Some e) \<Rightarrow> None
         | (isRunning, None) \<Rightarrow>
             if \<not> isRunning then Some (True, snd flags)
             else if CurrentManager p \<noteq> currentManager then Some (fst flags, True)
             else Some flags)
      else Some flags)"

definition periodic_rule ::
  "int \<Rightarrow> int \<Rightarrow> Plugin \<Rightarrow> Plugin \<Rightarrow> world \<Rightarrow> bool \<times> bool \<Rightarrow> (bool \<times> bool) option" where
  "periodic_rule currentManager now plugin p w flags =
     (if Mode plugin = ''periodic'' then
        (case IsRunning plugin w of
           (isRunning, Some e) \<Rightarrow> None
         | (isRunning, None) \<Rightarrow>
             if \<not> isRunning then
               (if time_After now (time_Add (LastExit p) (time_Second * LaunchFrequency plugin))
                then Some (True, snd flags) else Some flags)
             else if CurrentManager p \<noteq> currentManager then Some (fst flags, True)
             else Some flags)
      else Some flags)"

definition plugin_decision ::
  "int \<Rightarrow> int \<Rightarrow> Plugin \<Rightarrow> world \<Rightarrow> (Plugin \<times> Plugin \<times> bool \<times> bool) option" where
  "plugin_decision currentManager now plugin0 w =
     (case PluginSelectUUID (store w) (UUID plugin0) of
        (p, Some e) \<Rightarrow> None
      | (p, None) \<Rightarrow>
          (let plugin = plugin0\<lparr>ProcessID := ProcessID p\<rparr>
           in case oneshot_rule plugin p (False, False) of
                None \<Rightarrow> None
              | Some flags1 \<Rightarrow>
                  (case persistent_rule currentManager plugin p w flags1 of
                     None \<Rightarrow> None
                   | Some flags2 \<Rightarrow>
                       (case periodic_rule currentManager now plugin p w flags2 of
                          None \<Rightarrow> None
                        | Some (launchPlugin, resumeManaging) \<Rightarrow>
                            Some (plugin, p, launchPlugin, resumeManaging)))))"

text \<open>
  The removal. \<open>p\<close> is the stored record of the configured plugin of the enclosing
  iteration; the source reads \<open>p.ProcessID\<close> and \<open>p.ProcessName\<close> where it looks for the
  process to kill.
\<close>

fun remove_unconfigured :: "Plugin list \<Rightarrow> Plugin \<Rightarrow> Plugin list \<Rightarrow> world \<Rightarrow> world" where
  "remove_unconfigured config p [] w = w"
| "remove_unconfigured config p (runningPlugin # rest) w =
     (if UUID runningPlugin \<in> set (map UUID config) then remove_unconfigured config p rest w
      else
        (let w1 =
               (if ProcessID runningPlugin \<noteq> 0 then
                  (case fst (FindProcess w (ProcessID p)) of
                     None \<Rightarrow> w
                   | Some exe \<Rightarrow> if exe = ProcessName p then Kill (ProcessID p) w else w)
                else w);
             w2 = w1\<lparr>store :=
                       fst (PluginInsert (store w1)
                              (runningPlugin\<lparr>Status := ''complete'',
                                 StatusMessage := ''removed from configuration''\<rparr>))\<rparr>
         in remove_unconfigured config p rest w2))"

text \<open>
  \<open>launch\<close> and \<open>resume\<close> stand for \<open>LaunchBinary\<close> and \<open>ResumePlugin\<close> up to the moment they
  send on the channel the supervisor waits on.
\<close>

definition PluginManager_plugin ::
  "(Plugin \<Rightarrow> int \<Rightarrow> world \<Rightarrow> world) \<Rightarrow> (Plugin \<Rightarrow> int \<Rightarrow> world \<Rightarrow> world) \<Rightarrow>
   int \<Rightarrow> int \<Rightarrow> Plugin list \<Rightarrow> Plugin \<Rightarrow> world \<Rightarrow> world" where
  "PluginManager_plugin launch resume currentManager now config plugin0 w =
     (case plugin_decision currentManager now plugin0 w of
        None \<Rightarrow> w
      | Some (plugin, p, launchPlugin, resumeManaging) \<Rightarrow>
          (let w1 = (if launchPlugin then launch plugin currentManager w
                     else if resumeManaging then resume plugin currentManager w
                     else w)
           in case PluginSelectStatus (store w1) ''running'' of
                (runningPlugins, Some e) \<Rightarrow> w1
              | (runningPlugins, None) \<Rightarrow> remove_unconfigured config p runningPlugins w1))"

definition PluginManager_tick ::
  "(Plugin \<Rightarrow> int \<Rightarrow> world \<Rightarrow> world) \<Rightarrow> (Plugin \<Rightarrow> int \<Rightarrow> world \<Rightarrow> world) \<Rightarrow>
   int \<Rightarrow> int \<Rightarrow> Plugin list \<Rightarrow> world \<Rightarrow> world" where
  "PluginManager_tick launch resume currentManager now config w =
     fold (PluginManager_plugin launch resume currentManager now config) config w"

section \<open>Status updates and adoption\<close>

text \<open>
  \<open>marshal\<close> is \<open>json.Marshal\<close> on a \<open>Plugin\<close>, \<open>offline\<close> is \<open>client.Offline\<close>.
  \<open>UpdateStatus\<close> writes the record to the plugins table and queues a copy for the
  controller; \<open>QueuePluginLog\<close> only queues the copy.
\<close>

definition UpdateStatus ::
  "(Plugin \<Rightarrow> string \<times> error) \<Rightarrow> bool \<Rightarrow> Plugin \<Rightarrow> database \<Rightarrow> database \<times> error" where
  "UpdateStatus marshal offline p db =
     (case PluginInsert db p of
        (db1, Some e) \<Rightarrow> (db1, Some e)
      | (db1, None) \<Rightarrow>
          if \<not> offline then
            (let pluginToSend = p\<lparr>CurrentManager := 0\<rparr>
             in case marshal pluginToSend of
                  (msgBytes, Some e) \<Rightarrow> (db1, Some e)
                | (msgBytes, None) \<Rightarrow>
                    (case MessageQueueInsert db1 msgBytes ''/core/pluginlog/'' of
                       (db2, Some e) \<Rightarrow> (db2, Some e)
                     | (db2, None) \<Rightarrow> (db2, None)))
          else (db1, None))"

definition QueuePluginLog ::
  "(Plugin \<Rightarrow> string \<times> error) \<Rightarrow> bool \<Rightarrow> Plugin \<Rightarrow> database \<Rightarrow> database \<times> error" where
  "QueuePluginLog marshal offline p db =
     (if \<not> offline then
        (let pluginToSend = p\<lparr>CurrentManager := 0\<rparr>
         in case marshal pluginToSend of
              (msgBytes, Some e) \<Rightarrow> (db, Some e)
            | (msgBytes, None) \<Rightarrow>
                (case MessageQueueInsert db msgBytes ''/core/pluginlog/'' of
                   (db2, Some e) \<Rightarrow> (db2, Some e)
                 | (db2, None) \<Rightarrow> (db2, None)))
      else (db, None))"

fun strings_Join :: "string list \<Rightarrow> string \<Rightarrow> string" where
  "strings_Join [] sep = []"
| "strings_Join [a] sep = a"
| "strings_Join (a # b # rest) sep = a @ sep @ strings_Join (b # rest) sep"

definition SetError ::
  "(Plugin \<Rightarrow> string \<times> error) \<Rightarrow> bool \<Rightarrow> int \<Rightarrow> Plugin \<Rightarrow> string list \<Rightarrow> database \<Rightarrow> database" where
  "SetError marshal offline now p msg db =
     (let exMsg = ''Plugin '' @ Name p @ ''('' @ UUID p @ ''): '' @ strings_Join msg '': ''
      in fst (UpdateStatus marshal offline
                (p\<lparr>Status := ''error'', StatusMessage := exMsg, LastExit := now\<rparr>) db))"

text \<open>
  \<open>ResumePlugin\<close>. Its events are the resume of the process, the sends on the channel of the
  supervisor, the start of the throttler and the send on the throttler's \<open>quit\<close> channel.
  When the process table has no process with the stored id, \<open>ps.FindProcess\<close> returns a nil
  process and no error, and the call of \<open>Executable\<close> on it panics.

  Between two polls other goroutines run; \<open>envs\<close> gives, for each poll, what they did to
  the world since the step before. The loop ends when the reload fails, \<open>IsRunning\<close> fails
  or answers no, or the stored process id is no longer the adopted one; with no poll left
  the adopter is still monitoring.
\<close>

datatype adopt_event = ResumeProcessCalled int | Handshake | MonitorCpuStarted int nat | QuitSent

datatype adopt_outcome = AdoptPanic string | Monitoring | Finished world "adopt_event list"

fun poll_loop ::
  "(world \<Rightarrow> world) list \<Rightarrow> int \<Rightarrow> Plugin \<Rightarrow> world \<Rightarrow> (Plugin \<times> world) option" where
  "poll_loop [] currentPID p w = None"
| "poll_loop (env # envs) currentPID p w =
     (let w1 = env w
      in case PluginSelectUUID (store w1) (UUID p) of
           (p1, Some e) \<Rightarrow> Some (p1, w1)
         | (p1, None) \<Rightarrow>
             (case IsRunning p1 w1 of
                (isRunning, Some e) \<Rightarrow> Some (p1, w1)
              | (isRunning, None) \<Rightarrow>
                  if isRunning \<and> currentPID = ProcessID p1 then poll_loop envs currentPID p1 w1
                  else Some (p1, w1)))"

definition ResumePlugin_exit ::
  "(Plugin \<Rightarrow> string \<times> error) \<Rightarrow> bool \<Rightarrow> int \<Rightarrow> Plugin \<Rightarrow> world \<Rightarrow> world \<times> adopt_event list" where
  "ResumePlugin_exit marshal offline now p w =
     (let quit = (if 0 < CPULimit p then [QuitSent] else []);
          p1 = p\<lparr>StatusMessage := ''exited after monitoring resumed'', LastExit := now,
                 Status := ''exited after monitoring resumed''\<rparr>
      in (w\<lparr>store := fst (QueuePluginLog marshal offline p1 (store w))\<rparr>, quit @ [Handshake]))"

definition ResumePlugin ::
  "(Plugin \<Rightarrow> string \<times> error) \<Rightarrow> bool \<Rightarrow> int \<Rightarrow> int \<Rightarrow> int \<Rightarrow> (world \<Rightarrow> world) list \<Rightarrow>
   Plugin \<Rightarrow> world \<Rightarrow> adopt_outcome" where
  "ResumePlugin marshal offline manager t_entry t_exit envs p0 w =
     (let p1 = p0\<lparr>Status := ''running'', StatusMessage := ''resuming control'',
                  CurrentManager := manager\<rparr>
      in case FindProcess w (ProcessID p1) of
           (proc, Some e) \<Rightarrow>
             Finished
               (w\<lparr>store := SetError marshal offline t_entry p1
                              [''unable to get plugin process information'', e] (store w)\<rparr>)
               [Handshake]
         | (None, None) \<Rightarrow> AdoptPanic ''invalid memory address or nil pointer dereference''
         | (Some exe, None) \<Rightarrow>
             (let p2 = p1\<lparr>ProcessName := exe\<rparr>;
                  w1 = w\<lparr>store := fst (UpdateStatus marshal offline p2 (store w))\<rparr>;
                  started = ResumeProcessCalled (ProcessID p2) # Handshake #
                            (if 0 < CPULimit p2 then [MonitorCpuStarted (ProcessID p2) (CPULimit p2)]
                             else [])
              in case poll_loop envs (ProcessID p2) p2 w1 of
                   None \<Rightarrow> Monitoring
                 | Some (pk, wk) \<Rightarrow>
                     (case ResumePlugin_exit marshal offline t_exit pk wk of
                        (w', evs) \<Rightarrow> Finished w' (started @ evs))))"

section \<open>Example states\<close>

definition empty_store :: database where
  "empty_store =
     \<lparr>io_error = None, message_queue = [], rolling_queue = False, rowid_pick = (\<lambda>q. 1),
      plugins = []\<rparr>"

text \<open>The row that an insert adds under the rowid \<open>r\<close>.\<close>

definition inserted_row :: "int \<Rightarrow> string \<Rightarrow> string \<Rightarrow> queue_row" where
  "inserted_row r postString postURI =
     \<lparr>post_string = postString, post_uri = postURI, rowid = r\<rparr>"

text \<open>A queue at its cap: 20000 rows with the rowids 1 to 20000.\<close>

definition numbered_row :: "nat \<Rightarrow> queue_row" where
  "numbered_row i = \<lparr>post_string = ''{}'', post_uri = ''/core/pluginlog/'', rowid = int i\<rparr>"

definition full_store :: database where
  "full_store =
     \<lparr>io_error = None, message_queue = map numbered_row [1..<20001], rolling_queue = True,
      rowid_pick = (\<lambda>q. 1), plugins = []\<rparr>"

definition blank_payload_store :: database where
  "blank_payload_store =
     \<lparr>io_error = None,
      message_queue = [\<lparr>post_string = [], post_uri = ''/core/pluginlog/'', rowid = 1\<rparr>],
      rolling_queue = True, rowid_pick = (\<lambda>q. 1), plugins = []\<rparr>"

definition one_message_store :: database where
  "one_message_store =
     \<lparr>io_error = None,
      message_queue = [\<lparr>post_string = ''{}'', post_uri = ''/core/pluginlog/'', rowid = 1\<rparr>],
      rolling_queue = True, rowid_pick = (\<lambda>q. 1), plugins = []\<rparr>"

text \<open>
  A store whose only message holds the largest rowid of the engine; the engine's random
  candidate for the next rowid is 7.
\<close>

definition last_rowid_store :: database where
  "last_rowid_store =
     \<lparr>io_error = None,
      message_queue =
        [\<lparr>post_string = ''{}'', post_uri = ''/core/pluginlog/'', rowid = 9223372036854775807\<rparr>],
      rolling_queue = True, rowid_pick = (\<lambda>q. 7), plugins = []\<rparr>"

text \<open>
  A supervisor world in which plugin \<open>A\<close> is configured and running as process 100 and a
  plugin \<open>B\<close> that is no longer configured is still recorded as running, as process 200.
\<close>

definition plugin_A :: Plugin where
  "plugin_A = zero_Plugin\<lparr>Name := ''a'', Mode := ''persistent'', UUID := ''A''\<rparr>"

definition running_row :: "string \<Rightarrow> string \<Rightarrow> int \<Rightarrow> plugin_row" where
  "running_row uuid exe pid =
     \<lparr>row_uuid = uuid, row_name = exe, row_mode = ''persistent'', row_process_name = exe,
      row_process_id = pid, row_current_manager = 1, row_status = ''running'',
      row_status_message = ''running'', row_last_exit = zero_time, row_last_start = 0\<rparr>"

definition orphan_world :: world where
  "orphan_world =
     \<lparr>store = empty_store\<lparr>plugins := [running_row ''A'' ''a'' 100, running_row ''B'' ''b'' 200]\<rparr>,
      procs = [100 \<mapsto> ''a'', 200 \<mapsto> ''b''], ps_error = None, kills = []\<rparr>"

text \<open>
  A periodic plugin configured to run every 9223372037 seconds, which exited at the instant
  1700000000 seconds after the epoch.
\<close>

definition plugin_P :: Plugin where
  "plugin_P =
     zero_Plugin\<lparr>Name := ''p'', Mode := ''periodic'', UUID := ''P'',
                  LaunchFrequency := 9223372037\<rparr>"

definition exited_world :: world where
  "exited_world =
     \<lparr>store = empty_store
                \<lparr>plugins :=
                   [\<lparr>row_uuid = ''P'', row_name = ''p'', row_mode = ''periodic'',
                     row_process_name = ''p'', row_process_id = 0, row_current_manager = 1,
                     row_status = ''complete'', row_status_message = ''complete'',
                     row_last_exit = 1700000000000000000,
                     row_last_start = 1699999999000000000\<rparr>]\<rparr>,
      procs = Map.empty, ps_error = None, kills = []\<rparr>"

text \<open>
  A plugin left running as process 100 by an earlier agent, in a world where that process
  then exits.
\<close>

definition brief_marshal :: "Plugin \<Rightarrow> string \<times> error" where
  "brief_marshal p = (UUID p @ '': '' @ Status p, None)"

definition adopted_plugin :: Plugin where
  "adopted_plugin =
     zero_Plugin\<lparr>Name := ''a'', Mode := ''persistent'', UUID := ''A'', ProcessID := 100\<rparr>"

definition adopted_world :: world where
  "adopted_world =
     \<lparr>store = empty_store
                \<lparr>plugins :=
                   [\<lparr>row_uuid = ''A'', row_name = ''a'', row_mode = ''persistent'',
                     row_process_name = ''a'', row_process_id = 100, row_current_manager = 7,
                     row_status = ''running'', row_status_message = ''running'',
                     row_last_exit = zero_time, row_last_start = 0\<rparr>]\<rparr>,
      procs = [100 \<mapsto> ''a''], ps_error = None, kills = []\<rparr>"

definition process_exits :: "int \<Rightarrow> world \<Rightarrow> world" where
  "process_exits pid w = w\<lparr>procs := (procs w)(pid := None)\<rparr>"



chapter \<open>Verification\<close>

section \<open>Store\<close>

lemma CreateTable_ok:
  "io_error db = None \<Longrightarrow> MessageQueueCreateTable db = (db\<lparr>rolling_queue := True\<rparr>, None)"
  by (simp add: MessageQueueCreateTable_def sql_Prepare_def sql_Exec_def)

lemma CreateTable_err:
  "io_error db = Some e \<Longrightarrow> MessageQueueCreateTable db = (db, Some e)"
  by (simp add: MessageQueueCreateTable_def sql_Prepare_def sql_Exec_def)

lemma scan_rows_eq:
  "scan_rows rs outMsgs rowIds =
     (outMsgs @ filter (\<lambda>s. s \<noteq> []) (map post_string rs),
      rowIds @ filter (\<lambda>i. i \<noteq> 0) (map rowid rs))"
  by (induction rs arbitrary: outMsgs rowIds) simp_all

lemma filter_above_nth:
  fixes f :: "'a \<Rightarrow> int"
  shows "sorted_wrt (<) (map f xs) \<Longrightarrow> i < length xs \<Longrightarrow>
         filter (\<lambda>x. \<not> f x \<le> f (xs ! i)) xs = drop (Suc i) xs"
proof (induction xs arbitrary: i)
  case Nil
  then show ?case by simp
next
  case (Cons a xs)
  show ?case
  proof (cases i)
    case 0
    have "\<forall>y \<in> set xs. \<not> f y \<le> f a" using Cons.prems(1) by auto
    then have "filter (\<lambda>x. \<not> f x \<le> f a) xs = xs" by simp
    with 0 show ?thesis by simp
  next
    case (Suc j)
    have j: "j < length xs" using Cons.prems(2) Suc by simp
    have "f a < f (xs ! j)" using Cons.prems(1) j by auto
    moreover have "filter (\<lambda>x. \<not> f x \<le> f (xs ! j)) xs = drop (Suc j) xs"
      using Cons.IH [of j] Cons.prems(1) j by simp
    ultimately show ?thesis using Suc by simp
  qed
qed

lemma sorted_rowids: "sorted_wrt (<) (map rowid q) \<Longrightarrow> sort (map rowid q) = map rowid q"
  by (simp add: sorted_sort_id strict_sorted_iff)

lemma trigger_sorted:
  assumes "sorted_wrt (<) (map rowid q)"
  shows "rolling_queue_trigger q = drop (length q - QUEUE_CAP) q"
proof (cases "length q \<le> QUEUE_CAP")
  case True
  then show ?thesis by (simp add: rolling_queue_trigger_def sorted_rowids [OF assms])
next
  case False
  define i where "i = length q - Suc QUEUE_CAP"
  have i: "i < length q" and n: "QUEUE_CAP < length q" using False by (simp_all add: i_def)
  have nth: "rev (map rowid q) ! QUEUE_CAP = rowid (q ! i)"
    using n by (simp add: rev_nth i_def)
  have ne: "drop QUEUE_CAP (rev (map rowid q)) =
            rev (map rowid q) ! QUEUE_CAP # drop (Suc QUEUE_CAP) (rev (map rowid q))"
    using n by (simp add: Cons_nth_drop_Suc)
  have "rolling_queue_trigger q = filter (\<lambda>x. \<not> rowid x \<le> rowid (q ! i)) q"
    unfolding rolling_queue_trigger_def sorted_rowids [OF assms] by (subst ne) (simp add: nth)
  also have "\<dots> = drop (Suc i) q" using filter_above_nth [OF assms i] .
  also have "Suc i = length q - QUEUE_CAP" using n by (simp add: i_def)
  finally show ?thesis .
qed

lemma fold_max_ge: "(a::int) \<le> fold max xs a \<and> (\<forall>x \<in> set xs. x \<le> fold max xs a)"
proof (induction xs arbitrary: a)
  case Nil
  then show ?case by simp
next
  case (Cons y ys)
  have "max y a \<le> fold max ys (max y a)" and "\<forall>x \<in> set ys. x \<le> fold max ys (max y a)"
    using Cons.IH [of "max y a"] by simp_all
  then show ?case by auto
qed

lemma max_rowid_ge: "x \<in> set q \<Longrightarrow> rowid x \<le> max_rowid q"
  using fold_max_ge [of "rowid (hd q)" "map rowid q"] by (simp add: max_rowid_def)

lemma max_rowid_pos:
  assumes "queue_wf q" and "q \<noteq> []"
  shows "0 < max_rowid q"
proof -
  have "hd q \<in> set q" using assms(2) by simp
  then have "0 < rowid (hd q)" and "rowid (hd q) \<le> max_rowid q"
    using assms(1) max_rowid_ge [of "hd q" q] by (simp_all add: queue_wf_def)
  then show ?thesis by simp
qed

lemma queue_wf_append:
  assumes "queue_wf q" and "\<forall>x \<in> set q. rowid x < rowid new" and "0 < rowid new"
  shows "queue_wf (q @ [new])"
  using assms by (auto simp: queue_wf_def sorted_wrt_append)

lemma queue_wf_drop: "queue_wf q \<Longrightarrow> queue_wf (drop k q)"
  by (auto simp: queue_wf_def sorted_wrt_drop drop_map [symmetric] dest: in_set_dropD)

lemma queue_wf_filter: "queue_wf q \<Longrightarrow> queue_wf (filter P q)"
  by (auto simp: queue_wf_def sorted_wrt_filter filter_map comp_def sorted_wrt_map)

lemma dropped_older:
  fixes f :: "'a \<Rightarrow> int"
  assumes "sorted_wrt (<) (map f xs)" and "x \<in> set xs" and "x \<notin> set (drop k xs)"
    and "y \<in> set (drop k xs)"
  shows "f x < f y"
proof -
  define gone kept where "gone = take k xs" and "kept = drop k xs"
  have xs: "xs = gone @ kept" by (simp add: gone_def kept_def)
  have "x \<notin> set kept" and y: "y \<in> set kept" using assms(3,4) by (simp_all add: kept_def)
  moreover have "set xs = set gone \<union> set kept" by (subst xs) simp
  ultimately have x: "x \<in> set gone" using assms(2) by simp
  have "sorted_wrt (<) (map f gone @ map f kept)" using assms(1) by (subst (asm) xs) simp
  then show ?thesis using x y by (auto simp: sorted_wrt_append)
qed

lemma map_insort_key: "map f (insort_key f x xs) = insort (f x) (map f xs)"
  by (induction xs) simp_all

lemma queue_wf_insort:
  assumes "queue_wf q" and "0 < rowid n" and "rowid n \<notin> set (map rowid q)"
  shows "queue_wf (insort_key rowid n q)"
proof -
  have "sorted (map rowid q)" and "distinct (map rowid q)"
    using assms(1) by (simp_all add: queue_wf_def strict_sorted_iff)
  then have "sorted (insort (rowid n) (map rowid q))"
    and "distinct (insort (rowid n) (map rowid q))"
    using assms(3) by (simp_all add: sorted_insort distinct_insort)
  then have "sorted_wrt (<) (map rowid (insort_key rowid n q))"
    by (simp add: map_insort_key strict_sorted_iff)
  moreover have "\<forall>x \<in> set (insort_key rowid n q). 0 < rowid x"
    using assms(1,2) by (auto simp: queue_wf_def set_insort_key)
  ultimately show ?thesis by (simp add: queue_wf_def)
qed

lemma insort_key_above:
  fixes f :: "'a \<Rightarrow> int"
  shows "\<forall>x \<in> set xs. f x < f n \<Longrightarrow> insort_key f n xs = xs @ [n]"
  by (induction xs) auto

lemma new_rowid_fresh:
  assumes "queue_wf (message_queue db)" and "sql_new_rowid db = Some r"
  shows "0 < r \<and> r \<notin> set (map rowid (message_queue db))"
proof (cases "message_queue db = []")
  case True
  then show ?thesis using assms(2) by (simp add: sql_new_rowid_def)
next
  case False
  show ?thesis
  proof (cases "max_rowid (message_queue db) < MAX_ROWID")
    case True
    then have r: "r = max_rowid (message_queue db) + 1"
      using assms(2) False by (simp add: sql_new_rowid_def)
    have "\<forall>x \<in> set (message_queue db). rowid x < r"
      using max_rowid_ge [of _ "message_queue db"] r by fastforce
    moreover have "0 < r" using max_rowid_pos [OF assms(1) False] r by simp
    ultimately show ?thesis by auto
  next
    case nb: False
    then show ?thesis using assms(2) False
      by (auto simp: sql_new_rowid_def Let_def split: if_splits)
  qed
qed

lemma new_rowid_above:
  assumes "sql_new_rowid db = Some r"
    and "message_queue db = [] \<or> max_rowid (message_queue db) < MAX_ROWID"
  shows "\<forall>x \<in> set (message_queue db). rowid x < r"
proof (cases "message_queue db = []")
  case True
  then show ?thesis by simp
next
  case False
  then have "r = max_rowid (message_queue db) + 1"
    using assms by (simp add: sql_new_rowid_def)
  then show ?thesis using max_rowid_ge [of _ "message_queue db"] by fastforce
qed

lemma insert_row_ok:
  assumes "queue_wf (message_queue db)" and "rolling_queue db"
    and "sql_insert_queue_row db s u = (db', None)"
  shows "\<exists>r. sql_new_rowid db = Some r \<and>
             message_queue db' =
               drop (Suc (length (message_queue db)) - QUEUE_CAP)
                 (insort_key rowid (inserted_row r s u) (message_queue db))"
proof -
  let ?q = "message_queue db"
  obtain r where r: "sql_new_rowid db = Some r"
    using assms(3) by (cases "sql_new_rowid db") (simp_all add: sql_insert_queue_row_def)
  let ?q' = "insort_key rowid (inserted_row r s u) ?q"
  have fresh: "0 < r" "r \<notin> set (map rowid ?q)"
    using new_rowid_fresh [OF assms(1) r] by simp_all
  have wf': "queue_wf ?q'"
    using queue_wf_insort [OF assms(1), of "inserted_row r s u"] fresh
    by (simp add: inserted_row_def)
  have "message_queue db' = rolling_queue_trigger ?q'"
    using assms(2,3) r by (auto simp: sql_insert_queue_row_def Let_def inserted_row_def)
  then have "message_queue db' = drop (length ?q' - QUEUE_CAP) ?q'"
    using trigger_sorted [of ?q'] wf' by (simp add: queue_wf_def)
  then show ?thesis using r by simp
qed

lemma insert_row_err:
  "sql_insert_queue_row db s u = (db', Some e) \<Longrightarrow> db' = db"
  by (auto simp: sql_insert_queue_row_def Let_def split: option.splits)

lemma insert_row_pick:
  "rowid_pick (fst (sql_insert_queue_row db s u)) = rowid_pick db"
  by (simp add: sql_insert_queue_row_def Let_def split: option.splits)

lemma Insert_ok:
  "io_error db = None \<Longrightarrow>
   MessageQueueInsert db s u = sql_insert_queue_row (db\<lparr>rolling_queue := True\<rparr>) s u"
  by (simp add: MessageQueueInsert_def CreateTable_ok sql_Prepare_def sql_Exec_def)

lemma Insert_err:
  "io_error db = Some e \<Longrightarrow> MessageQueueInsert db s u = (db, Some e)"
  by (simp add: MessageQueueInsert_def CreateTable_err)

lemma new_rowid_trigger_flag: "sql_new_rowid (db\<lparr>rolling_queue := b\<rparr>) = sql_new_rowid db"
  by (simp add: sql_new_rowid_def Let_def)

lemma Insert_queue:
  assumes wf: "queue_wf (message_queue db)" and ins: "MessageQueueInsert db s u = (db', err)"
  shows "(err = None \<longrightarrow>
            (\<exists>r. sql_new_rowid db = Some r \<and>
                 message_queue db' =
                   drop (Suc (length (message_queue db)) - QUEUE_CAP)
                     (insort_key rowid (inserted_row r s u) (message_queue db)))) \<and>
         (err \<noteq> None \<longrightarrow> message_queue db' = message_queue db)"
proof (cases "io_error db")
  case (Some e)
  then show ?thesis using ins by (auto simp: Insert_err)
next
  case None
  let ?db1 = "db\<lparr>rolling_queue := True\<rparr>"
  have eq: "sql_insert_queue_row ?db1 s u = (db', err)" using ins None by (simp add: Insert_ok)
  show ?thesis
  proof (cases err)
    case None
    then show ?thesis
      using insert_row_ok [of ?db1 s u db'] wf eq by (simp add: new_rowid_trigger_flag)
  next
    case (Some e)
    then show ?thesis using insert_row_err [of ?db1 s u db' e] eq by auto
  qed
qed

lemma Insert_wf:
  assumes wf: "queue_wf (message_queue db)" and ins: "MessageQueueInsert db s u = (db', err)"
  shows "queue_wf (message_queue db')"
proof (cases err)
  case (Some e)
  then show ?thesis using Insert_queue [OF wf ins] wf by simp
next
  case None
  then obtain r where r: "sql_new_rowid db = Some r"
    and q': "message_queue db' =
               drop (Suc (length (message_queue db)) - QUEUE_CAP)
                 (insort_key rowid (inserted_row r s u) (message_queue db))"
    using Insert_queue [OF wf ins] by auto
  have "queue_wf (insort_key rowid (inserted_row r s u) (message_queue db))"
    using queue_wf_insort [OF wf, of "inserted_row r s u"] new_rowid_fresh [OF wf r]
    by (simp add: inserted_row_def)
  then show ?thesis unfolding q' by (rule queue_wf_drop)
qed

lemma Select_ok:
  "io_error db = None \<Longrightarrow>
   MessageQueueSelectURI db uri =
     (db\<lparr>rolling_queue := True\<rparr>,
      filter (\<lambda>s. s \<noteq> []) (map post_string (selected_rows db)),
      filter (\<lambda>i. i \<noteq> 0) (map rowid (selected_rows db)), None)"
  by (simp add: MessageQueueSelectURI_def CreateTable_ok sql_Prepare_def sql_Query_def
      scan_rows_eq selected_rows_def)

lemma Select_err:
  "io_error db = Some e \<Longrightarrow> MessageQueueSelectURI db uri = (db, [], [], Some e)"
  by (simp add: MessageQueueSelectURI_def CreateTable_err)

lemma selected_rows_wf:
  "queue_wf (message_queue db) \<Longrightarrow> selected_rows db = take 100 (message_queue db)"
  by (simp add: selected_rows_def queue_wf_def strict_sorted_iff sort_key_id_if_sorted)

lemma rowids_nonzero:
  "queue_wf q \<Longrightarrow> filter (\<lambda>i. i \<noteq> 0) (map rowid (take n q)) = map rowid (take n q)"
  by (auto simp: queue_wf_def filter_id_conv dest!: in_set_takeD)

lemma filter_map_length_le: "length xs \<le> n \<Longrightarrow> length (filter P (map f xs)) \<le> n"
  by (metis length_filter_le length_map le_trans)

text \<open>
  Claim C1. The store never panics: every operation, on every input and also
  \<open>MessageQueueDelete\<close> on an empty list of rowids, returns a result and an error. The code
  does not: with no rowid, \<open>len(rowIds)-1\<close> is \<open>-1\<close> and \<open>strings.Repeat\<close> panics as soon as
  the table has been created, before any statement is prepared.
\<close>

theorem MessageQueueDelete_no_rowids_panics:
  "io_error db = None \<Longrightarrow> MessageQueueDelete db [] = Panic ''strings: negative Repeat count''"
  by (simp add: MessageQueueDelete_def CreateTable_ok strings_Repeat_def)

theorem MessageQueueDelete_no_rowids_panics_witness:
  "io_error empty_store = None \<and>
   MessageQueueDelete empty_store [] = Panic ''strings: negative Repeat count''"
  using MessageQueueDelete_no_rowids_panics [of empty_store] by (simp add: empty_store_def)

text \<open>
  Claim C3, as amended. For every state of the queue and every \<open>uri\<close>,
  \<open>MessageQueueSelectURI\<close> answers without regard to \<open>uri\<close>; it returns at most 100 rowids,
  those of the oldest rows of the whole table in ascending order (a rowid 0, which the
  engine never hands out, would be left out), and of the payloads of those rows, in the
  same order, the ones that are not empty.
\<close>

theorem MessageQueueSelectURI_oldest_100:
  "MessageQueueSelectURI db uri = MessageQueueSelectURI db uri' \<and>
   (case MessageQueueSelectURI db uri of
      (db', outMsgs, rowIds, err) \<Rightarrow>
        length outMsgs \<le> 100 \<and> length rowIds \<le> 100 \<and>
        (err = None) = (io_error db = None) \<and>
        (err = None \<longrightarrow>
           outMsgs = filter (\<lambda>s. s \<noteq> [])
                       (map post_string (take 100 (sort_key rowid (message_queue db)))) \<and>
           rowIds = filter (\<lambda>i. i \<noteq> 0)
                      (map rowid (take 100 (sort_key rowid (message_queue db))))) \<and>
        (err = None \<and> queue_wf (message_queue db) \<longrightarrow>
           outMsgs = filter (\<lambda>s. s \<noteq> []) (map post_string (take 100 (message_queue db))) \<and>
           rowIds = map rowid (take 100 (message_queue db))))"
proof (cases "io_error db")
  case (Some e)
  then show ?thesis by (simp add: Select_err)
next
  case None
  define rows where "rows = take 100 (sort_key rowid (message_queue db))"
  define outMsgs where "outMsgs = filter (\<lambda>s. s \<noteq> []) (map post_string rows)"
  define rowIds where "rowIds = filter (\<lambda>i. i \<noteq> 0) (map rowid rows)"
  have sel: "\<And>u. MessageQueueSelectURI db u = (db\<lparr>rolling_queue := True\<rparr>, outMsgs, rowIds, None)"
    using None by (simp add: Select_ok selected_rows_def outMsgs_def rowIds_def rows_def)
  have len: "length rows \<le> 100" by (simp add: rows_def)
  have l1: "length outMsgs \<le> 100" unfolding outMsgs_def by (rule filter_map_length_le [OF len])
  have l2: "length rowIds \<le> 100" unfolding rowIds_def by (rule filter_map_length_le [OF len])
  have wf: "queue_wf (message_queue db) \<longrightarrow>
              outMsgs = filter (\<lambda>s. s \<noteq> []) (map post_string (take 100 (message_queue db))) \<and>
              rowIds = map rowid (take 100 (message_queue db))"
  proof
    assume w: "queue_wf (message_queue db)"
    then have "rows = take 100 (message_queue db)"
      by (simp add: rows_def queue_wf_def strict_sorted_iff sort_key_id_if_sorted)
    then show "outMsgs = filter (\<lambda>s. s \<noteq> []) (map post_string (take 100 (message_queue db))) \<and>
              rowIds = map rowid (take 100 (message_queue db))"
      using rowids_nonzero [OF w, of 100] by (simp add: outMsgs_def rowIds_def)
  qed
  show ?thesis
    unfolding sel using l1 l2 wf None by (simp add: outMsgs_def rowIds_def rows_def)
qed

theorem MessageQueueSelectURI_oldest_100_witness:
  "queue_wf (message_queue one_message_store) \<and>
   MessageQueueSelectURI one_message_store ''/core/pluginlog/'' =
     (one_message_store, [''{}''], [1], None) \<and>
   MessageQueueSelectURI one_message_store ''/core/hello/'' =
     (one_message_store, [''{}''], [1], None)"
  using MessageQueueSelectURI_oldest_100 [of one_message_store "''/core/pluginlog/''" "''/core/hello/''"]
  by (simp add: one_message_store_def queue_wf_def Select_ok selected_rows_def)

text \<open>
  Claim C3 as stated says that the payloads of the selected rows are returned. The queue
  with the single row of rowid 1 and an empty payload is selected whole, yet no payload
  comes back.
\<close>

theorem MessageQueueSelectURI_payloads_counterexample:
  "MessageQueueSelectURI blank_payload_store ''/core/pluginlog/'' =
     (blank_payload_store, [], [1], None) \<and>
   map post_string (take 100 (sort_key rowid (message_queue blank_payload_store))) = [[]] \<and>
   map rowid (take 100 (sort_key rowid (message_queue blank_payload_store))) = [1]"
  by (simp add: blank_payload_store_def Select_ok selected_rows_def)

lemma numbered_rowids: "map rowid (map numbered_row xs) = map int xs"
  by (simp add: numbered_row_def comp_def)

lemma numbered_wf: "0 < m \<Longrightarrow> queue_wf (map numbered_row [m..<n])"
proof -
  assume "0 < m"
  have "sorted_wrt (<) (map int [m..<n])"
    by (simp add: sorted_wrt_map)
  then show ?thesis using \<open>0 < m\<close> unfolding queue_wf_def numbered_rowids
    by (auto simp: numbered_row_def)
qed

lemma fold_max_in: "fold max xs (a::int) \<in> insert a (set xs)"
proof (induction xs arbitrary: a)
  case Nil
  then show ?case by simp
next
  case (Cons y ys)
  have "fold max ys (max y a) \<in> insert (max y a) (set ys)" by (rule Cons.IH)
  moreover have "max y a = y \<or> max y a = a" by (simp add: max_def)
  ultimately show ?case by auto
qed

lemma max_rowid_in:
  assumes "q \<noteq> []"
  shows "max_rowid q \<in> rowid ` set q"
proof -
  have "hd q \<in> set q" using assms by simp
  then have "rowid (hd q) \<in> rowid ` set q" by (rule imageI)
  moreover have "max_rowid q \<in> insert (rowid (hd q)) (set (map rowid q))"
    unfolding max_rowid_def by (rule fold_max_in)
  ultimately show ?thesis by auto
qed

lemma max_rowid_numbered:
  assumes "m < n"
  shows "max_rowid (map numbered_row [m..<Suc n]) = int n"
proof -
  define q where "q = map numbered_row [m..<Suc n]"
  have set_q: "set q = numbered_row ` {m..<Suc n}" by (simp add: q_def del: upt_Suc)
  have ne: "q \<noteq> []" using assms by (simp add: q_def del: upt_Suc)
  have "numbered_row n \<in> set q" using assms unfolding set_q by simp
  then have ge: "int n \<le> max_rowid q" using max_rowid_ge [of "numbered_row n" q]
    by (simp add: numbered_row_def)
  have "max_rowid q \<in> rowid ` set q" using ne by (rule max_rowid_in)
  then obtain i where "i \<in> {m..<Suc n}" and "max_rowid q = int i"
    unfolding set_q by (auto simp: numbered_row_def)
  then have "max_rowid q \<le> int n" by simp
  then show ?thesis using ge unfolding q_def by simp
qed

text \<open>
  Claim C4. After \<open>MessageQueueInsert\<close> the table holds at most 20000 rows: after an insert
  that succeeded, and after a failed one when it held at most 20000 before. The rows that
  are gone have smaller rowids than every row that is left. An insert that succeeds adds
  one row with the given payload and uri under a rowid that no row has, changes no other
  row and drops only from the front of the table in rowid order; unless the largest rowid
  of the engine is in use the new row is above every rowid present, so that the table is
  the old one with the new row appended and the front dropped. An insert that fails changes
  no row.
\<close>

theorem MessageQueueInsert_cap:
  assumes "queue_wf (message_queue db)"
    and "MessageQueueInsert db postString postURI = (db', err)"
  shows "(err = None \<or> length (message_queue db) \<le> 20000 \<longrightarrow>
            length (message_queue db') \<le> 20000) \<and>
         (\<forall>x \<in> set (message_queue db). x \<notin> set (message_queue db') \<longrightarrow>
            (\<forall>y \<in> set (message_queue db'). rowid x < rowid y)) \<and>
         (err = None \<longrightarrow>
            (\<exists>new. post_string new = postString \<and> post_uri new = postURI \<and>
                   rowid new \<notin> rowid ` set (message_queue db) \<and>
                   message_queue db' =
                     drop (length (message_queue db) + 1 - 20000)
                       (insort_key rowid new (message_queue db)) \<and>
                   (message_queue db = [] \<or> max_rowid (message_queue db) < MAX_ROWID \<longrightarrow>
                      (\<forall>x \<in> set (message_queue db). rowid x < rowid new) \<and>
                      message_queue db' =
                        drop (length (message_queue db) + 1 - 20000)
                          (message_queue db @ [new])))) \<and>
         (err \<noteq> None \<longrightarrow> message_queue db' = message_queue db) \<and>
         queue_wf (message_queue db')"
proof -
  let ?q = "message_queue db"
  let ?k = "Suc (length ?q) - QUEUE_CAP"
  note iq = Insert_queue [OF assms]
  have unchanged: "err \<noteq> None \<longrightarrow> message_queue db' = ?q" using iq by simp
  have app: "err = None \<longrightarrow>
            (\<exists>new. post_string new = postString \<and> post_uri new = postURI \<and>
                   rowid new \<notin> rowid ` set ?q \<and>
                   message_queue db' = drop (length ?q + 1 - 20000) (insort_key rowid new ?q) \<and>
                   (?q = [] \<or> max_rowid ?q < MAX_ROWID \<longrightarrow>
                      (\<forall>x \<in> set ?q. rowid x < rowid new) \<and>
                      message_queue db' = drop (length ?q + 1 - 20000) (?q @ [new])))"
  proof
    assume "err = None"
    then obtain r where r: "sql_new_rowid db = Some r"
      and q': "message_queue db' = drop ?k (insort_key rowid (inserted_row r postString postURI) ?q)"
      using iq by auto
    define new where "new = inserted_row r postString postURI"
    have f: "post_string new = postString" "post_uri new = postURI" "rowid new = r"
      by (simp_all add: new_def inserted_row_def)
    have fresh: "rowid new \<notin> rowid ` set ?q"
      using new_rowid_fresh [OF assms(1) r] f by simp
    have eq: "message_queue db' = drop (length ?q + 1 - 20000) (insort_key rowid new ?q)"
      using q' by (simp add: QUEUE_CAP_def new_def)
    have above: "?q = [] \<or> max_rowid ?q < MAX_ROWID \<longrightarrow>
                   (\<forall>x \<in> set ?q. rowid x < rowid new) \<and>
                   message_queue db' = drop (length ?q + 1 - 20000) (?q @ [new])"
    proof
      assume "?q = [] \<or> max_rowid ?q < MAX_ROWID"
      then have ab: "\<forall>x \<in> set ?q. rowid x < rowid new"
        using new_rowid_above [OF r] f by simp
      then have "insort_key rowid new ?q = ?q @ [new]" by (rule insort_key_above)
      then show "(\<forall>x \<in> set ?q. rowid x < rowid new) \<and>
                 message_queue db' = drop (length ?q + 1 - 20000) (?q @ [new])"
        using ab eq by simp
    qed
    show "\<exists>new. post_string new = postString \<and> post_uri new = postURI \<and>
                   rowid new \<notin> rowid ` set ?q \<and>
                   message_queue db' = drop (length ?q + 1 - 20000) (insort_key rowid new ?q) \<and>
                   (?q = [] \<or> max_rowid ?q < MAX_ROWID \<longrightarrow>
                      (\<forall>x \<in> set ?q. rowid x < rowid new) \<and>
                      message_queue db' = drop (length ?q + 1 - 20000) (?q @ [new]))"
      using f(1,2) fresh eq above by blast
  qed
  have len: "err = None \<or> length ?q \<le> 20000 \<longrightarrow> length (message_queue db') \<le> 20000"
  proof (cases err)
    case (Some e)
    then show ?thesis using unchanged by simp
  next
    case None
    then obtain new where "message_queue db' =
        drop (length ?q + 1 - 20000) (insort_key rowid new ?q)"
      using app by blast
    then have "length (message_queue db') = Suc (length ?q) - (length ?q + 1 - 20000)"
      by simp
    then show ?thesis by arith
  qed
  have older: "\<forall>x \<in> set ?q. x \<notin> set (message_queue db') \<longrightarrow>
                 (\<forall>y \<in> set (message_queue db'). rowid x < rowid y)"
  proof (cases err)
    case (Some e)
    then have "message_queue db' = ?q" using unchanged by simp
    then show ?thesis by simp
  next
    case None
    then obtain r where r: "sql_new_rowid db = Some r"
      and q': "message_queue db' = drop ?k (insort_key rowid (inserted_row r postString postURI) ?q)"
      using iq by auto
    define q1 where "q1 = insort_key rowid (inserted_row r postString postURI) ?q"
    have "queue_wf q1"
      unfolding q1_def
      using queue_wf_insort [OF assms(1), of "inserted_row r postString postURI"]
        new_rowid_fresh [OF assms(1) r]
      by (simp add: inserted_row_def)
    then have sorted: "sorted_wrt (<) (map rowid q1)" by (simp add: queue_wf_def)
    have sub: "set ?q \<subseteq> set q1" by (auto simp: q1_def set_insort_key)
    have eq: "message_queue db' = drop ?k q1" using q' by (simp add: q1_def)
    show ?thesis
    proof (intro ballI impI)
      fix x y
      assume "x \<in> set ?q" and "x \<notin> set (message_queue db')"
        and "y \<in> set (message_queue db')"
      then show "rowid x < rowid y"
        using dropped_older [OF sorted, of x ?k y] sub by (auto simp: eq)
    qed
  qed
  show ?thesis using len older app unchanged Insert_wf [OF assms] by blast
qed

theorem MessageQueueInsert_cap_witness:
  "queue_wf (message_queue full_store) \<and> length (message_queue full_store) = 20000 \<and>
   rowid (hd (message_queue full_store)) = 1 \<and>
   snd (MessageQueueInsert full_store ''{}'' ''/core/pluginlog/'') = None \<and>
   length (message_queue (fst (MessageQueueInsert full_store ''{}'' ''/core/pluginlog/''))) = 20000 \<and>
   rowid (hd (message_queue (fst (MessageQueueInsert full_store ''{}'' ''/core/pluginlog/'')))) = 2 \<and>
   rowid (last (message_queue (fst (MessageQueueInsert full_store ''{}'' ''/core/pluginlog/'')))) =
     20001"
proof -
  define q where "q = map numbered_row [1..<20001]"
  let ?r = "MessageQueueInsert full_store ''{}'' ''/core/pluginlog/''"
  define new where "new = inserted_row 20001 ''{}'' ''/core/pluginlog/''"
  have mq: "message_queue full_store = q" by (simp add: full_store_def q_def)
  have wf: "queue_wf (message_queue full_store)" unfolding mq q_def by (rule numbered_wf) simp
  have len: "length q = 20000" by (simp add: q_def)
  have hd0: "rowid (hd q) = 1" by (simp add: q_def hd_map upt_rec [of 1 20001] numbered_row_def)
  have mx: "max_rowid q = 20000" using max_rowid_numbered [of 1 20000] by (simp add: q_def)
  have ne: "q \<noteq> []" using len by auto
  have io: "io_error full_store = None" by (simp add: full_store_def)
  have nr: "sql_new_rowid full_store = Some 20001"
    using ne mx by (simp add: sql_new_rowid_def Let_def MAX_ROWID_def mq)
  have err: "snd ?r = None"
    by (simp add: Insert_ok [OF io] sql_insert_queue_row_def Let_def new_rowid_trigger_flag nr)
  have ins: "?r = (fst ?r, snd ?r)" by simp
  note cap = MessageQueueInsert_cap [OF wf ins]
  have rn: "rowid new = 20001" by (simp add: new_def inserted_row_def)
  have "\<forall>x \<in> set q. rowid x < rowid new"
    using max_rowid_ge [of _ q] mx rn by fastforce
  then have ik: "insort_key rowid new q = q @ [new]" by (rule insort_key_above)
  have nq: "message_queue (fst ?r) = drop 1 (q @ [new])"
    using Insert_queue [OF wf ins] err len nr ik
    by (simp add: mq QUEUE_CAP_def new_def del: drop_append)
  have l': "length (drop 1 (q @ [new])) = 20000" using len by simp
  have "hd (drop 1 (q @ [new])) = hd (drop 1 q)" using len by simp
  also have "\<dots> = q ! 1" using len by (simp add: hd_drop_conv_nth)
  also have "\<dots> = numbered_row 2" by (simp add: q_def numeral_2_eq_2)
  finally have h': "rowid (hd (drop 1 (q @ [new]))) = 2" by (simp add: numbered_row_def)
  have "last (drop 1 (q @ [new])) = new" using len by simp
  then have t': "rowid (last (drop 1 (q @ [new]))) = 20001" using rn by simp
  show ?thesis using wf len hd0 err l' h' t' cap unfolding nq mq by simp
qed

text \<open>
  At the largest rowid the engine inserts under an unused random rowid, and the insert
  returns no error; it returns ``database or disk is full'' only when no unused rowid is
  found.
\<close>

lemma MessageQueueInsert_last_rowid:
  "snd (MessageQueueInsert last_rowid_store ''x'' ''/core/pluginlog/'') = None \<and>
   map (\<lambda>r. (rowid r, post_string r))
     (message_queue (fst (MessageQueueInsert last_rowid_store ''x'' ''/core/pluginlog/''))) =
     [(7, ''x''), (9223372036854775807, ''{}'')]"
  by (simp add: last_rowid_store_def MessageQueueInsert_def MessageQueueCreateTable_def
      sql_Prepare_def sql_Exec_def sql_insert_queue_row_def sql_new_rowid_def max_rowid_def
      MAX_ROWID_def rolling_queue_trigger_def QUEUE_CAP_def Let_def)

lemma MessageQueueInsert_full:
  "MessageQueueInsert (last_rowid_store\<lparr>rowid_pick := (\<lambda>q. 9223372036854775807)\<rparr>)
     ''x'' ''/core/pluginlog/'' =
   (last_rowid_store\<lparr>rowid_pick := (\<lambda>q. 9223372036854775807)\<rparr>,
    Some ''database or disk is full'')"
  by (simp add: last_rowid_store_def MessageQueueInsert_def MessageQueueCreateTable_def
      sql_Prepare_def sql_Exec_def sql_insert_queue_row_def sql_new_rowid_def max_rowid_def
      MAX_ROWID_def Let_def)

text \<open>
  Claim C10. \<open>MessageQueueSelectURI\<close> leaves the payload of a selected row out of the
  messages when it is empty and still returns the rowid of that row, so that the list of
  rowids is longer than the list of messages by the number of selected rows with an empty
  payload.
\<close>

theorem MessageQueueSelectURI_empty_payload:
  assumes "io_error db = None" and "queue_wf (message_queue db)"
  shows "case MessageQueueSelectURI db uri of
           (db', outMsgs, rowIds, err) \<Rightarrow>
             (\<forall>r \<in> set (take 100 (message_queue db)).
                post_string r = [] \<longrightarrow> post_string r \<notin> set outMsgs \<and> rowid r \<in> set rowIds) \<and>
             length rowIds =
               length outMsgs +
               length (filter (\<lambda>r. post_string r = []) (take 100 (message_queue db)))"
proof -
  let ?rows = "take 100 (message_queue db)"
  have sel: "MessageQueueSelectURI db uri =
               (db\<lparr>rolling_queue := True\<rparr>,
                filter (\<lambda>s. s \<noteq> []) (map post_string ?rows), map rowid ?rows, None)"
    using assms rowids_nonzero [of "message_queue db" 100]
    by (simp add: Select_ok selected_rows_wf)
  have "length ?rows =
          length (filter (\<lambda>r. post_string r \<noteq> []) ?rows) +
          length (filter (\<lambda>r. \<not> post_string r \<noteq> []) ?rows)"
    by (rule sum_length_filter_compl [symmetric])
  then have len: "length (map rowid ?rows) =
          length (filter (\<lambda>s. s \<noteq> []) (map post_string ?rows)) +
          length (filter (\<lambda>r. post_string r = []) ?rows)"
    by (simp add: filter_map comp_def del: length_take)
  show ?thesis unfolding sel using len by (auto simp del: length_take length_map filter_map)
qed

theorem MessageQueueSelectURI_empty_payload_witness:
  "io_error blank_payload_store = None \<and> queue_wf (message_queue blank_payload_store) \<and>
   MessageQueueSelectURI blank_payload_store ''/core/pluginlog/'' =
     (blank_payload_store, [], [1], None)"
  using MessageQueueSelectURI_empty_payload [of blank_payload_store "''/core/pluginlog/''"]
  by (simp add: blank_payload_store_def queue_wf_def Select_ok selected_rows_def)

section \<open>Queue drainer\<close>

lemma filter_not_in_take:
  "distinct (map f xs) \<Longrightarrow> filter (\<lambda>x. f x \<notin> set (map f (take n xs))) xs = drop n xs"
proof (induction xs arbitrary: n)
  case Nil
  then show ?case by simp
next
  case (Cons a xs)
  show ?case
  proof (cases n)
    case 0
    then show ?thesis by simp
  next
    case (Suc m)
    have "filter (\<lambda>x. f x \<notin> set (map f (take n (a # xs)))) (a # xs) =
          filter (\<lambda>x. f x \<noteq> f a \<and> f x \<notin> set (map f (take m xs))) xs"
      using Suc by simp
    also have "\<dots> = filter (\<lambda>x. f x \<notin> set (map f (take m xs))) xs"
    proof (rule filter_cong [OF refl])
      fix x assume "x \<in> set xs"
      then have "f x \<in> set (map f xs)" by simp
      then have "f x \<noteq> f a" using Cons.prems by auto
      then show "(f x \<noteq> f a \<and> f x \<notin> set (map f (take m xs))) = (f x \<notin> set (map f (take m xs)))"
        by simp
    qed
    also have "\<dots> = drop m xs" using Cons.IH [of m] Cons.prems by simp
    finally show ?thesis using Suc by simp
  qed
qed

lemma Delete_ok:
  "io_error db = None \<Longrightarrow> rowIds \<noteq> [] \<Longrightarrow>
   MessageQueueDelete db rowIds =
     Return (db\<lparr>rolling_queue := True,
                message_queue := filter (\<lambda>x. rowid x \<notin> set rowIds) (message_queue db)\<rparr>,
             int (length (filter (\<lambda>x. rowid x \<in> set rowIds) (message_queue db))), None)"
  by (cases rowIds)
     (simp_all add: MessageQueueDelete_def CreateTable_ok strings_Repeat_def sql_Prepare_def
        sql_Exec_def)

lemma remove_messages_ok:
  "io_error db = None \<Longrightarrow> rowIds \<noteq> [] \<Longrightarrow>
   remove_messages db rowIds =
     Return (db\<lparr>rolling_queue := True,
                message_queue := filter (\<lambda>x. rowid x \<notin> set rowIds) (message_queue db)\<rparr>)"
  by (simp add: remove_messages_def Delete_ok)

lemma Vacuum_fst: "fst (Vacuum db) = db"
  by (simp add: Vacuum_def split: option.splits)

lemma batch_rowids:
  assumes "io_error db = None" and "queue_wf (message_queue db)"
    and "MessageQueueSelectURI db uri = (db1, messages, rowIds, err0)"
  shows "db1 = db\<lparr>rolling_queue := True\<rparr>"
    and "messages = filter (\<lambda>s. s \<noteq> []) (map post_string (take 100 (message_queue db)))"
    and "rowIds = map rowid (take 100 (message_queue db))"
    and "filter (\<lambda>x. rowid x \<notin> set rowIds) (message_queue db) = drop 100 (message_queue db)"
    and "messages \<noteq> [] \<Longrightarrow> rowIds \<noteq> []"
proof -
  have sel: "MessageQueueSelectURI db uri =
       (db\<lparr>rolling_queue := True\<rparr>,
        filter (\<lambda>s. s \<noteq> []) (map post_string (take 100 (message_queue db))),
        map rowid (take 100 (message_queue db)), None)"
    using assms(1,2) rowids_nonzero [of "message_queue db" 100]
    by (simp add: Select_ok selected_rows_wf)
  show db1: "db1 = db\<lparr>rolling_queue := True\<rparr>" using sel assms(3) by simp
  show m: "messages = filter (\<lambda>s. s \<noteq> []) (map post_string (take 100 (message_queue db)))"
    using sel assms(3) by simp
  show r: "rowIds = map rowid (take 100 (message_queue db))" using sel assms(3) by simp
  have "distinct (map rowid (message_queue db))"
    using assms(2) by (simp add: queue_wf_def strict_sorted_iff)
  then show "filter (\<lambda>x. rowid x \<notin> set rowIds) (message_queue db) = drop 100 (message_queue db)"
    unfolding r by (rule filter_not_in_take)
  show "messages \<noteq> [] \<Longrightarrow> rowIds \<noteq> []" unfolding m r by auto
qed

text \<open>
  The invariants of the table hold in the empty store and are kept by the two operations
  that change the queue.
\<close>

lemma empty_store_wf: "queue_wf (message_queue empty_store)"
  by (simp add: empty_store_def queue_wf_def)

lemma MessageQueueDelete_wf:
  assumes "queue_wf (message_queue db)" and "MessageQueueDelete db rowIds = Return (db', n, e)"
  shows "queue_wf (message_queue db')"
proof (cases "io_error db")
  case (Some x)
  then show ?thesis using assms by (simp add: MessageQueueDelete_def CreateTable_err)
next
  case None
  show ?thesis
  proof (cases "rowIds = []")
    case True
    then show ?thesis using assms(2) None by (simp add: MessageQueueDelete_def CreateTable_ok strings_Repeat_def)
  next
    case False
    then show ?thesis
      using assms Delete_ok [OF None False] by (auto simp: queue_wf_filter)
  qed
qed

lemma remove_messages_err:
  "io_error db = Some e \<Longrightarrow> remove_messages db rowIds = Return db"
  by (simp add: remove_messages_def MessageQueueDelete_def CreateTable_err)

text \<open>
  What one iteration of the drainer does with a batch that it posts (the store answers the
  select, the table satisfies its invariants, the selected messages are not empty and were
  marshalled). The rowids of the batch are deleted when \<open>Send\<close> returns no error or an error
  whose text contains \<open>500 Internal Server Error\<close> or \<open>400 Bad Request\<close>, and the driver
  answers the delete; that is so for a response whose status line is one of these two.
  On any other error, such as a network error whose text holds neither, and whenever the
  driver fails the delete, no row is deleted, the queue is as before, and the next iteration
  that finds the store answering posts the same batch again, whatever the controller
  answers then.
\<close>

lemma MessageQueueManager_iter_batch:
  assumes "io_error db = None" and "queue_wf (message_queue db)"
    and "MessageQueueSelectURI db ''/core/pluginlog/'' = (db1, messages, rowIds, err0)"
    and "messages \<noteq> []" and "marshal messages = (msgBytes, None)"
    and "Send msgBytes ''/core/pluginlog/'' ex = (resp, err)"
  shows "\<exists>db' evs.
           MessageQueueManager_iter marshal ex io_later db =
             Return (db', Posted msgBytes ''/core/pluginlog/'' # evs) \<and>
           (removes_batch err \<and> io_later = None \<longrightarrow>
              message_queue db' =
                filter (\<lambda>x. rowid x \<notin> set rowIds) (message_queue db) \<and>
              message_queue db' = drop 100 (message_queue db)) \<and>
           (\<not> removes_batch err \<or> io_later \<noteq> None \<longrightarrow>
              message_queue db' = message_queue db \<and>
              (\<forall>ex' io'. \<exists>db'' evs'.
                 MessageQueueManager_iter marshal ex' io' (db'\<lparr>io_error := None\<rparr>) =
                   Return (db'', Posted msgBytes ''/core/pluginlog/'' # evs'))) \<and>
           removes_batch err =
             (err = None \<or>
              (\<exists>e. err = Some e \<and>
                 (strings_Contains e ''500 Internal Server Error'' \<or>
                  strings_Contains e ''400 Bad Request''))) \<and>
           (\<forall>b. ex = Response 400 ''400 Bad Request'' b \<or>
                ex = Response 500 ''500 Internal Server Error'' b \<longrightarrow> removes_batch err) \<and>
           (\<forall>e. (ex = DoError e \<or> ex = ReadAllError e) \<and>
                \<not> strings_Contains e ''500 Internal Server Error'' \<and>
                \<not> strings_Contains e ''400 Bad Request'' \<longrightarrow> \<not> removes_batch err)"
proof -
  have crit: "removes_batch err =
             (err = None \<or>
              (\<exists>e. err = Some e \<and>
                 (strings_Contains e ''500 Internal Server Error'' \<or>
                  strings_Contains e ''400 Bad Request'')))"
    by (cases err) (simp_all add: removes_batch_def bad_status_code_def)
  have bad: "\<forall>b. ex = Response 400 ''400 Bad Request'' b \<or>
                ex = Response 500 ''500 Internal Server Error'' b \<longrightarrow> removes_batch err"
    using assms(6) by (auto simp: Send_def removes_batch_def bad_status_code_def)
  have net: "\<forall>e. (ex = DoError e \<or> ex = ReadAllError e) \<and>
                \<not> strings_Contains e ''500 Internal Server Error'' \<and>
                \<not> strings_Contains e ''400 Bad Request'' \<longrightarrow> \<not> removes_batch err"
    using assms(6) by (auto simp: Send_def removes_batch_def bad_status_code_def)
  note b = batch_rowids [OF assms(1,2,3)]
  define dbs where "dbs = db\<lparr>rolling_queue := True\<rparr>"
  define dbl where "dbl = dbs\<lparr>io_error := io_later\<rparr>"
  define dbn where "dbn = dbl\<lparr>io_error := None\<rparr>"
  define dbd where "dbd = dbl\<lparr>message_queue := drop 100 (message_queue db)\<rparr>"
  have ids: "rowIds \<noteq> []" using b(5) assms(4) .
  have mql: "message_queue dbl = message_queue db" by (simp add: dbl_def dbs_def)
  have mqn: "message_queue dbn = message_queue db" by (simp add: dbn_def mql)
  have ion: "io_error dbn = None" by (simp add: dbn_def)
  have rq: "dbl\<lparr>rolling_queue := True\<rparr> = dbl" "dbn\<lparr>rolling_queue := True\<rparr> = dbn"
    by (simp_all add: dbn_def dbl_def dbs_def)
  have rm_ok: "remove_messages (dbn\<lparr>io_error := io'\<rparr>) rowIds =
                 Return (dbn\<lparr>io_error := io', message_queue := drop 100 (message_queue db)\<rparr>)"
    if "io' = None" for io'
    using remove_messages_ok [of "dbn\<lparr>io_error := io'\<rparr>" rowIds] ids that b(4) mqn rq(2)
    by (simp add: dbn_def dbl_def dbs_def)
  have rm_l: "remove_messages dbl rowIds = Return dbd" if "io_later = None"
    using remove_messages_ok [of dbl rowIds] ids that b(4) mql rq(1)
    by (simp add: dbd_def dbl_def dbs_def)
  have rm_err: "remove_messages d rowIds = Return d" if "io_error d \<noteq> None" for d
    using that remove_messages_err [of d _ rowIds] by (cases "io_error d") simp_all
  have sel0: "MessageQueueSelectURI db ''/core/pluginlog/'' = (dbs, messages, rowIds, err0)"
    using assms(3) b(1) by (simp add: dbs_def)
  have seln: "MessageQueueSelectURI dbn ''/core/pluginlog/'' = (dbn, messages, rowIds, None)"
    using ion b(2,3) rowids_nonzero [OF assms(2), of 100] assms(2) mqn rq(2)
    by (simp add: Select_ok selected_rows_wf)
  have len: "length messages \<noteq> 0" using assms(4) by simp
  have again: "\<exists>db'' evs'. MessageQueueManager_iter marshal ex' io' dbn =
             Return (db'', Posted msgBytes ''/core/pluginlog/'' # evs')" for ex' io'
  proof -
    obtain r' e' where s: "Send msgBytes ''/core/pluginlog/'' ex' = (r', e')"
      by (cases "Send msgBytes ''/core/pluginlog/'' ex'") auto
    have rm: "\<exists>d. remove_messages (dbn\<lparr>io_error := io'\<rparr>) rowIds = Return d"
    proof (cases io')
      case None
      then show ?thesis using rm_ok [of io'] by simp
    next
      case (Some x)
      then show ?thesis using rm_err [of "dbn\<lparr>io_error := io'\<rparr>"] by simp
    qed
    then obtain d where d: "remove_messages (dbn\<lparr>io_error := io'\<rparr>) rowIds = Return d" ..
    show ?thesis
    proof (cases "\<exists>x. e' = Some x \<and> \<not> bad_status_code x")
      case True
      then show ?thesis using seln len assms(5) s
        by (auto simp: MessageQueueManager_iter_def Vacuum_fst)
    next
      case False
      then show ?thesis using seln len assms(5) s d
        by (cases e') (auto simp: MessageQueueManager_iter_def Vacuum_fst)
    qed
  qed
  show ?thesis
  proof (cases "removes_batch err \<and> io_later = None")
    case True
    then have "\<exists>evs. MessageQueueManager_iter marshal ex io_later db =
             Return (dbd, Posted msgBytes ''/core/pluginlog/'' # evs)"
      using sel0 len assms(5,6) rm_l
      by (cases err)
         (simp_all add: MessageQueueManager_iter_def Vacuum_fst removes_batch_def dbl_def)
    moreover have "message_queue dbd = drop 100 (message_queue db)" by (simp add: dbd_def)
    ultimately show ?thesis using True b(4) crit bad net by auto
  next
    case False
    have rml: "remove_messages dbl rowIds = Return dbl" if "io_later \<noteq> None"
      using rm_err [of dbl] that by (simp add: dbl_def)
    have first: "\<exists>evs. MessageQueueManager_iter marshal ex io_later db =
             Return (dbl, Posted msgBytes ''/core/pluginlog/'' # evs)"
    proof (cases "removes_batch err")
      case True
      then have "io_later \<noteq> None" using False by simp
      then show ?thesis
        using sel0 len assms(5,6) rml True
        by (cases err)
           (simp_all add: MessageQueueManager_iter_def Vacuum_fst removes_batch_def dbl_def)
    next
      case nr: False
      then obtain e where e: "err = Some e" "\<not> bad_status_code e"
        by (cases err) (simp_all add: removes_batch_def)
      then show ?thesis
        using sel0 len assms(5,6)
        by (simp add: MessageQueueManager_iter_def Vacuum_fst dbl_def)
    qed
    have "dbl\<lparr>io_error := None\<rparr> = dbn" by (simp add: dbn_def)
    then show ?thesis using first again False mql crit bad net by fastforce
  qed
qed

lemma MessageQueueManager_iter_examples:
  "io_error one_message_store = None \<and> queue_wf (message_queue one_message_store) \<and>
   MessageQueueSelectURI one_message_store ''/core/pluginlog/'' =
     (one_message_store, [''{}''], [1], None) \<and>
   plain_marshal [''{}''] = (''[{}]'', None) \<and>
   Send ''[{}]'' ''/core/pluginlog/'' (DoError ''i/o timeout'') =
     ([], Some ''NETWORK ERROR: i/o timeout'') \<and>
   \<not> removes_batch (Some ''NETWORK ERROR: i/o timeout'') \<and>
   MessageQueueManager_iter plain_marshal (DoError ''i/o timeout'') None one_message_store =
     Return (one_message_store, [Posted ''[{}]'' ''/core/pluginlog/'', Vacuumed, Slept_PollTime]) \<and>
   MessageQueueManager_iter plain_marshal (Response 500 ''500 Internal Server Error'' BadSignature)
     None one_message_store =
     Return (one_message_store\<lparr>message_queue := []\<rparr>,
             [Posted ''[{}]'' ''/core/pluginlog/'', Vacuumed, Slept_PollTime])"
proof -
  have io: "io_error one_message_store = None" by (simp add: one_message_store_def)
  have same: "one_message_store\<lparr>io_error := None\<rparr> = one_message_store"
    by (simp add: one_message_store_def)
  have wf: "queue_wf (message_queue one_message_store)"
    by (simp add: one_message_store_def queue_wf_def)
  have sel: "MessageQueueSelectURI one_message_store ''/core/pluginlog/'' =
               (one_message_store, [''{}''], [1], None)"
    by (simp add: one_message_store_def Select_ok selected_rows_def)
  have m: "plain_marshal [''{}''] = (''[{}]'', None)" by (simp add: plain_marshal_def)
  have s: "Send ''[{}]'' ''/core/pluginlog/'' (DoError ''i/o timeout'') =
             ([], Some ''NETWORK ERROR: i/o timeout'')"
    by (simp add: Send_def)
  have keep: "\<not> removes_batch (Some ''NETWORK ERROR: i/o timeout'')"
    by (simp add: removes_batch_def bad_status_code_def)
  have s5: "Send ''[{}]'' ''/core/pluginlog/'' (Response 500 ''500 Internal Server Error'' BadSignature) =
             ([], Some ''Received bad status: 500 Internal Server Error'')"
    by (simp add: Send_def)
  have drop5: "bad_status_code ''Received bad status: 500 Internal Server Error''"
    by (simp add: bad_status_code_def)
  have del: "remove_messages one_message_store [1] = Return (one_message_store\<lparr>message_queue := []\<rparr>)"
    using remove_messages_ok [OF io, of "[1]"] by (simp add: one_message_store_def)
  have r1: "MessageQueueManager_iter plain_marshal (DoError ''i/o timeout'') None one_message_store =
     Return (one_message_store, [Posted ''[{}]'' ''/core/pluginlog/'', Vacuumed, Slept_PollTime])"
    unfolding MessageQueueManager_iter_def sel using m s keep
    by (simp add: removes_batch_def Vacuum_fst same)
  have r2: "MessageQueueManager_iter plain_marshal
              (Response 500 ''500 Internal Server Error'' BadSignature) None one_message_store =
     Return (one_message_store\<lparr>message_queue := []\<rparr>,
             [Posted ''[{}]'' ''/core/pluginlog/'', Vacuumed, Slept_PollTime])"
    unfolding MessageQueueManager_iter_def sel using m s5 drop5 del
    by (simp add: Vacuum_fst same)
  show ?thesis using io wf sel m s keep r1 r2 by blast
qed

text \<open>
  A POST that the controller accepted, followed by a delete that the driver fails: the
  error of \<open>MessageQueueDelete\<close> is only logged, the row stays and is posted again.
\<close>

lemma MessageQueueManager_iter_delete_fails:
  "MessageQueueManager_iter plain_marshal (Response 200 ''200 OK'' (Signed ''{}''))
     (Some ''database is locked'') one_message_store =
     Return (one_message_store\<lparr>io_error := Some ''database is locked''\<rparr>,
             [Posted ''[{}]'' ''/core/pluginlog/'', Vacuumed, Slept_PollTime])"
proof -
  have sel: "MessageQueueSelectURI one_message_store ''/core/pluginlog/'' =
               (one_message_store, [''{}''], [1], None)"
    by (simp add: one_message_store_def Select_ok selected_rows_def)
  have m: "plain_marshal [''{}''] = (''[{}]'', None)" by (simp add: plain_marshal_def)
  have s: "Send ''[{}]'' ''/core/pluginlog/'' (Response 200 ''200 OK'' (Signed ''{}'')) =
             (''{}'', None)"
    by (simp add: Send_def)
  have del: "remove_messages (one_message_store\<lparr>io_error := Some ''database is locked''\<rparr>) [1] =
               Return (one_message_store\<lparr>io_error := Some ''database is locked''\<rparr>)"
    by (rule remove_messages_err) simp
  show ?thesis
    unfolding MessageQueueManager_iter_def sel using m s del by (simp add: Vacuum_fst)
qed

text \<open>
  Claim C2. The claim has the batch deleted whenever the POST fails with HTTP status 500.
  The drainer is written to ``check for a bad status code'' and to ``remove the message if
  we get a bad status code'', but it never sees the status code, only the text of the
  error, which ends in the status line as the server wrote it, and it looks there for the
  reason phrases as Go spells them. A response with status 500 whose reason phrase is in
  capitals is taken for an unreachable controller: the batch stays in the queue and is
  posted again, while the same status with the phrase \<open>Internal Server Error\<close> removes it.
\<close>

theorem MessageQueueManager_keeps_batch_on_500:
  "http_status (Response 500 ''500 INTERNAL SERVER ERROR'' BadSignature) = Some 500 \<and>
   Send ''[{}]'' ''/core/pluginlog/'' (Response 500 ''500 INTERNAL SERVER ERROR'' BadSignature) =
     ([], Some ''Received bad status: 500 INTERNAL SERVER ERROR'') \<and>
   MessageQueueManager_iter plain_marshal (Response 500 ''500 INTERNAL SERVER ERROR'' BadSignature)
     None one_message_store =
     Return (one_message_store, [Posted ''[{}]'' ''/core/pluginlog/'', Vacuumed, Slept_PollTime]) \<and>
   message_queue one_message_store =
     [\<lparr>post_string = ''{}'', post_uri = ''/core/pluginlog/'', rowid = 1\<rparr>] \<and>
   MessageQueueManager_iter plain_marshal (Response 500 ''500 Internal Server Error'' BadSignature)
     None one_message_store =
     Return (one_message_store\<lparr>message_queue := []\<rparr>,
             [Posted ''[{}]'' ''/core/pluginlog/'', Vacuumed, Slept_PollTime])"
proof -
  have io: "io_error one_message_store = None" by (simp add: one_message_store_def)
  have same: "one_message_store\<lparr>io_error := None\<rparr> = one_message_store"
    by (simp add: one_message_store_def)
  have sel: "MessageQueueSelectURI one_message_store ''/core/pluginlog/'' =
               (one_message_store, [''{}''], [1], None)"
    by (simp add: one_message_store_def Select_ok selected_rows_def)
  have m: "plain_marshal [''{}''] = (''[{}]'', None)" by (simp add: plain_marshal_def)
  have s: "Send ''[{}]'' ''/core/pluginlog/'' (Response 500 ''500 INTERNAL SERVER ERROR'' BadSignature) =
             ([], Some ''Received bad status: 500 INTERNAL SERVER ERROR'')"
    by (simp add: Send_def)
  have keep: "\<not> bad_status_code ''Received bad status: 500 INTERNAL SERVER ERROR''"
    by (simp add: bad_status_code_def)
  have s5: "Send ''[{}]'' ''/core/pluginlog/'' (Response 500 ''500 Internal Server Error'' BadSignature) =
             ([], Some ''Received bad status: 500 Internal Server Error'')"
    by (simp add: Send_def)
  have drop5: "bad_status_code ''Received bad status: 500 Internal Server Error''"
    by (simp add: bad_status_code_def)
  have del: "remove_messages one_message_store [1] = Return (one_message_store\<lparr>message_queue := []\<rparr>)"
    using remove_messages_ok [OF io, of "[1]"] by (simp add: one_message_store_def)
  have r1: "MessageQueueManager_iter plain_marshal
          (Response 500 ''500 INTERNAL SERVER ERROR'' BadSignature) None one_message_store =
     Return (one_message_store, [Posted ''[{}]'' ''/core/pluginlog/'', Vacuumed, Slept_PollTime])"
    unfolding MessageQueueManager_iter_def sel using m s keep by (simp add: Vacuum_fst same)
  have r2: "MessageQueueManager_iter plain_marshal
              (Response 500 ''500 Internal Server Error'' BadSignature) None one_message_store =
     Return (one_message_store\<lparr>message_queue := []\<rparr>,
             [Posted ''[{}]'' ''/core/pluginlog/'', Vacuumed, Slept_PollTime])"
    unfolding MessageQueueManager_iter_def sel using m s5 drop5 del
    by (simp add: Vacuum_fst same)
  have h: "http_status (Response 500 ''500 INTERNAL SERVER ERROR'' BadSignature) = Some 500"
    by (simp add: http_status_def)
  have q: "message_queue one_message_store =
     [\<lparr>post_string = ''{}'', post_uri = ''/core/pluginlog/'', rowid = 1\<rparr>]"
    by (simp add: one_message_store_def)
  show ?thesis using h s r1 q r2 by blast
qed

section \<open>Throttler\<close>

lemma darwin_round_resumed:
  "suspends_resumed (fst (ThrottleCpu_darwin sys) @ Sleep200ms # calls) = suspends_resumed calls"
  by (simp add: ThrottleCpu_darwin_def split: option.splits)

lemma windows_round_resumed:
  "suspends_resumed (fst (ThrottleCpu_windows sys) @ Sleep200ms # calls) = suspends_resumed calls"
  by (simp add: ThrottleCpu_windows_def split: option.splits)

lemma MonitorCpu_darwin_quit:
  "MonitorCpu_darwin (map NoQuit rounds @ QuitReceived # later) =
     (concat (map (\<lambda>sys. fst (ThrottleCpu_darwin sys) @ [Sleep200ms]) rounds), Returned None)"
  by (induction rounds) simp_all

lemma MonitorCpu_windows_quit:
  "MonitorCpu_windows_loop (map NoQuit rounds @ QuitReceived # later) =
     (concat (map (\<lambda>sys. fst (ThrottleCpu_windows sys) @ [Sleep200ms]) rounds), Returned None)"
  by (induction rounds) simp_all

lemma darwin_rounds_resumed:
  "suspends_resumed (concat (map (\<lambda>sys. fst (ThrottleCpu_darwin sys) @ [Sleep200ms]) rounds))"
  by (induction rounds) (simp_all add: darwin_round_resumed)

lemma windows_rounds_resumed:
  "suspends_resumed (concat (map (\<lambda>sys. fst (ThrottleCpu_windows sys) @ [Sleep200ms]) rounds))"
  by (induction rounds) (simp_all add: windows_round_resumed)

text \<open>
  Claim C6, as amended. When \<open>MonitorCpu\<close> finds a value on \<open>quit\<close> it returns at once: the
  calls it has made are those of the rounds before, and none is made for the quit, on
  Darwin and on Windows alike. In each of those rounds a suspend that took effect was
  followed by the sleep and the resume of the round, so no round is left open when
  \<open>MonitorCpu\<close> returns.
\<close>

theorem MonitorCpu_quit:
  "MonitorCpu_darwin (map NoQuit rounds @ QuitReceived # later) =
     (concat (map (\<lambda>sys. fst (ThrottleCpu_darwin sys) @ [Sleep200ms]) rounds), Returned None) \<and>
   suspends_resumed (fst (MonitorCpu_darwin (map NoQuit rounds @ QuitReceived # later))) \<and>
   MonitorCpu_windows None (map NoQuit wrounds @ QuitReceived # wlater) =
     (concat (map (\<lambda>sys. fst (ThrottleCpu_windows sys) @ [Sleep200ms]) wrounds), Returned None) \<and>
   suspends_resumed (fst (MonitorCpu_windows None (map NoQuit wrounds @ QuitReceived # wlater)))"
  by (simp add: MonitorCpu_darwin_quit MonitorCpu_windows_quit MonitorCpu_windows_def
      darwin_rounds_resumed windows_rounds_resumed)

text \<open>
  Claim C6 as stated says that a final resume is issued when a value is sent on \<open>quit\<close>.
  With the value there at the first look, \<open>MonitorCpu\<close> returns having made no call on the
  process at all.
\<close>

theorem MonitorCpu_quit_counterexample:
  "MonitorCpu_darwin [QuitReceived] = ([], Returned None) \<and>
   MonitorCpu_windows None [QuitReceived] = ([], Returned None) \<and>
   resumes_issued (fst (MonitorCpu_darwin [QuitReceived])) = 0 \<and>
   resumes_issued (fst (MonitorCpu_windows None [QuitReceived])) = 0"
  by (simp add: MonitorCpu_windows_def resumes_issued_def)

section \<open>Transport: endpoint and proxy failover\<close>

lemma trim_slashes_TrimSuffix: "trim_slashes (strings_TrimSuffix u ''/'') = trim_slashes u"
proof (cases "u \<noteq> [] \<and> last u = CHR ''/''")
  case True
  then obtain v where u: "u = v @ ''/''" by (metis append_butlast_last_id)
  then have "strings_TrimSuffix u ''/'' = v" by (simp add: strings_TrimSuffix_def)
  then show ?thesis by (simp add: u trim_slashes_def)
next
  case False
  have "strings_TrimSuffix u ''/'' = u"
  proof (cases u rule: rev_cases)
    case Nil
    then show ?thesis by (simp add: strings_TrimSuffix_def)
  next
    case (snoc v c)
    then show ?thesis using False by (simp add: strings_TrimSuffix_def)
  qed
  then show ?thesis by simp
qed

lemma all_failed_append:
  "all_failed net tested (a @ b) = (all_failed net tested a \<and> all_failed net (tested @ a) b)"
  by (induction a arbitrary: tested) simp_all

lemma test_run_nothing: "test_run net tested (False, s, tested) []"
  by (simp add: test_run_def)

lemma test_run_seq:
  assumes "test_run net t (False, s1, t1) pl1" and "test_run net t1 (ok, s2, t2) pl2"
  shows "test_run net t (ok, s2, t2) (pl1 @ pl2)"
proof -
  obtain n1 where n1: "t1 = t @ n1" "map endpoint n1 = pl1" "all_failed net t n1"
    using assms(1) by (auto simp: test_run_def)
  show ?thesis
  proof (cases ok)
    case False
    then obtain n2 where n2: "t2 = t1 @ n2" "map endpoint n2 = pl2" "all_failed net t1 n2"
      using assms(2) by (auto simp: test_run_def)
    have "t2 = t @ (n1 @ n2)" "map endpoint (n1 @ n2) = pl1 @ pl2" "all_failed net t (n1 @ n2)"
      using n1 n2 by (simp_all add: all_failed_append)
    then show ?thesis using False unfolding test_run_def by (auto simp del: all_failed.simps)
  next
    case True
    then obtain n2 fails where n2: "t2 = t1 @ n2" "prefix (map endpoint n2) pl2"
        "n2 = fails @ [(ControllerURL s2, Proxy s2)]" "all_failed net t1 fails"
        "conntest_succeeds net (t1 @ fails) (ControllerURL s2, Proxy s2)"
      using assms(2) by (auto simp: test_run_def)
    have a: "t2 = t @ (n1 @ n2)" using n1 n2 by simp
    have b: "prefix (map endpoint (n1 @ n2)) (pl1 @ pl2)" using n1(2) n2(2) by auto
    have c: "n1 @ n2 = (n1 @ fails) @ [(ControllerURL s2, Proxy s2)]" using n2(3) by simp
    have d: "all_failed net t (n1 @ fails)" using n1 n2 by (simp add: all_failed_append)
    have e: "conntest_succeeds net (t @ (n1 @ fails)) (ControllerURL s2, Proxy s2)"
      using n1(1) n2(5) by simp
    show ?thesis using True unfolding test_run_def using a b c d e by (auto simp del: append_assoc)
  qed
qed

lemma test_run_more:
  "test_run net t (True, s1, t1) pl1 \<Longrightarrow> test_run net t (True, s1, t1) (pl1 @ pl2)"
  by (auto simp: test_run_def)

lemma TestConnection_run:
  assumes "TestConnection net s tested = Some (ok, s1, tested1)"
  shows "test_run net tested (ok, s1, tested1) [endpoint (ControllerURL s, Proxy s)]"
    and "Proxy s1 = Proxy s"
    and "trim_slashes (ControllerURL s1) = trim_slashes (ControllerURL s)"
proof -
  let ?s1 = "s\<lparr>ControllerURL := strings_TrimSuffix (ControllerURL s) ''/''\<rparr>"
  let ?pair = "(ControllerURL ?s1, Proxy ?s1)"
  have r: "s1 = ?s1" "tested1 = tested @ [?pair]" "ok = conntest_succeeds net tested ?pair"
    using assms by (auto simp: TestConnection_def Let_def conntest_succeeds_def
        split: conntest_exchange.splits)
  show "Proxy s1 = Proxy s" using r(1) by simp
  show t: "trim_slashes (ControllerURL s1) = trim_slashes (ControllerURL s)"
    using r(1) by (simp add: trim_slashes_TrimSuffix)
  have e: "endpoint ?pair = endpoint (ControllerURL s, Proxy s)"
    by (simp add: endpoint_def trim_slashes_TrimSuffix)
  show "test_run net tested (ok, s1, tested1) [endpoint (ControllerURL s, Proxy s)]"
  proof (cases ok)
    case True
    have "tested1 = tested @ [] @ [(ControllerURL s1, Proxy s1)]" using r by simp
    moreover have "conntest_succeeds net (tested @ []) (ControllerURL s1, Proxy s1)"
      using r True by simp
    moreover have "map endpoint ([] @ [(ControllerURL s1, Proxy s1)]) = [endpoint (ControllerURL s, Proxy s)]"
      using e r(1) by simp
    ultimately show ?thesis using True unfolding test_run_def
      by (auto intro!: exI [of _ "[(ControllerURL s1, Proxy s1)]"])
  next
    case False
    then show ?thesis using r e unfolding test_run_def by auto
  qed
qed

lemma try_proxies_run:
  assumes "try_proxies net Ps s tested = Some (ok, s', tested')"
  shows "test_run net tested (ok, s', tested') (map (\<lambda>P. (trim_slashes (ControllerURL s), P)) Ps) \<and>
         trim_slashes (ControllerURL s') = trim_slashes (ControllerURL s) \<and>
         (\<not> ok \<longrightarrow> Proxy s' = last (Proxy s # Ps))"
  using assms
proof (induction Ps arbitrary: s tested)
  case Nil
  then show ?case by (simp add: test_run_nothing)
next
  case (Cons P Ps)
  let ?s = "s\<lparr>Proxy := P\<rparr>"
  define pl1 where "pl1 = [(trim_slashes (ControllerURL s), P)]"
  define pl2 where "pl2 = map (\<lambda>P. (trim_slashes (ControllerURL s), P)) Ps"
  have plan: "map (\<lambda>P. (trim_slashes (ControllerURL s), P)) (P # Ps) = pl1 @ pl2"
    by (simp add: pl1_def pl2_def)
  obtain ok1 s1 t1 where tc: "TestConnection net ?s tested = Some (ok1, s1, t1)"
    using Cons.prems by (auto split: option.splits)
  note r = TestConnection_run [OF tc]
  have r1: "test_run net tested (ok1, s1, t1) pl1"
    using r(1) by (simp add: endpoint_def pl1_def)
  have c: "trim_slashes (ControllerURL s1) = trim_slashes (ControllerURL s)" using r(3) by simp
  show ?case
  proof (cases ok1)
    case True
    then have res: "ok = True" "s' = s1" "tested' = t1" using Cons.prems tc by simp_all
    have "test_run net tested (True, s1, t1) (pl1 @ pl2)"
      by (rule test_run_more) (use r1 True in simp)
    then show ?thesis unfolding plan using res c by simp
  next
    case False
    then have rest: "try_proxies net Ps s1 t1 = Some (ok, s', tested')"
      using Cons.prems tc by simp
    note ih = Cons.IH [OF rest]
    have r2: "test_run net t1 (ok, s', tested') pl2" using ih c by (simp add: pl2_def)
    have r1f: "test_run net tested (False, s1, t1) pl1" using r1 False by simp
    have "test_run net tested (ok, s', tested') (pl1 @ pl2)"
      by (rule test_run_seq [OF r1f r2])
    moreover have "\<not> ok \<longrightarrow> Proxy s' = last (Proxy s # P # Ps)" using ih r(2) by simp
    ultimately show ?thesis unfolding plan using ih c by simp
  qed
qed

lemma second_test_run:
  assumes "(if uses_proxy (Proxy s1) then TestConnection net (s1\<lparr>Proxy := []\<rparr>) t1
            else Some (False, s1, t1)) = Some (ok2, s2, t2)"
  shows "test_run net t1 (ok2, s2, t2)
           (map (Pair (trim_slashes (ControllerURL s1))) (if uses_proxy (Proxy s1) then [[]] else []))"
    and "trim_slashes (ControllerURL s2) = trim_slashes (ControllerURL s1)"
    and "\<not> ok2 \<longrightarrow> Proxy s2 = last (Proxy s1 # (if uses_proxy (Proxy s1) then [[]] else []))"
proof -
  show "test_run net t1 (ok2, s2, t2)
           (map (Pair (trim_slashes (ControllerURL s1))) (if uses_proxy (Proxy s1) then [[]] else []))"
  proof (cases "uses_proxy (Proxy s1)")
    case True
    then have "TestConnection net (s1\<lparr>Proxy := []\<rparr>) t1 = Some (ok2, s2, t2)"
      using assms by simp
    from TestConnection_run(1) [OF this] show ?thesis using True by (simp add: endpoint_def)
  next
    case False
    then show ?thesis using assms by (simp add: test_run_nothing)
  qed
  show "trim_slashes (ControllerURL s2) = trim_slashes (ControllerURL s1)"
  proof (cases "uses_proxy (Proxy s1)")
    case True
    then have "TestConnection net (s1\<lparr>Proxy := []\<rparr>) t1 = Some (ok2, s2, t2)"
      using assms by simp
    from TestConnection_run(3) [OF this] show ?thesis by simp
  next
    case False
    then show ?thesis using assms by simp
  qed
  show "\<not> ok2 \<longrightarrow> Proxy s2 = last (Proxy s1 # (if uses_proxy (Proxy s1) then [[]] else []))"
  proof (cases "uses_proxy (Proxy s1)")
    case True
    then have "TestConnection net (s1\<lparr>Proxy := []\<rparr>) t1 = Some (ok2, s2, t2)"
      using assms by simp
    from TestConnection_run(2) [OF this] show ?thesis using True by simp
  next
    case False
    then show ?thesis using assms by simp
  qed
qed

lemma try_controllers_run:
  assumes "try_controllers net proxyList Cs s tested = Some (ok, s', tested')"
  shows "test_run net tested (ok, s', tested') (map endpoint (tested_order (Proxy s) proxyList Cs))"
  using assms
proof (induction Cs arbitrary: s tested)
  case Nil
  then show ?case by (simp add: test_run_nothing)
next
  case (Cons C Cs)
  let ?c = "trim_slashes C"
  let ?direct = "if uses_proxy (Proxy s) then [[]] else ([] :: string list)"
  let ?tried = "Proxy s # ?direct @ proxyList"
  define pl1 where "pl1 = [(?c, Proxy s)]"
  define pl2 :: "conn_pair list" where "pl2 = map (Pair ?c) ?direct"
  define pl3 where "pl3 = map (\<lambda>P. (?c, P)) proxyList"
  define pl4 where "pl4 = map endpoint (tested_order (last ?tried) proxyList Cs)"
  have plan: "map endpoint (tested_order (Proxy s) proxyList (C # Cs)) = ((pl1 @ pl2) @ pl3) @ pl4"
    by (simp add: Let_def endpoint_def comp_def pl1_def pl2_def pl3_def pl4_def)
  obtain ok1 s1 t1 where tc1: "TestConnection net (s\<lparr>ControllerURL := C\<rparr>) tested = Some (ok1, s1, t1)"
    using Cons.prems by (auto split: option.splits)
  note r1 = TestConnection_run [OF tc1]
  have run1: "test_run net tested (ok1, s1, t1) pl1"
    using r1(1) by (simp add: endpoint_def pl1_def)
  have c1: "trim_slashes (ControllerURL s1) = ?c" and p1: "Proxy s1 = Proxy s"
    using r1(2,3) by simp_all
  show ?case
  proof (cases ok1)
    case True
    then have res: "ok = True" "s' = s1" "tested' = t1" using Cons.prems tc1 by simp_all
    have "test_run net tested (True, s1, t1) (pl1 @ (pl2 @ pl3 @ pl4))"
      by (rule test_run_more) (use run1 True in simp)
    then show ?thesis unfolding plan res by simp
  next
    case f1: False
    obtain ok2 s2 t2 where tc2:
      "(if uses_proxy (Proxy s1) then TestConnection net (s1\<lparr>Proxy := []\<rparr>) t1
        else Some (False, s1, t1)) = Some (ok2, s2, t2)"
      using Cons.prems tc1 f1 by (auto split: option.splits)
    note r2 = second_test_run [OF tc2]
    have run2: "test_run net t1 (ok2, s2, t2) pl2" using r2(1) c1 p1 by (simp add: pl2_def)
    have c2: "trim_slashes (ControllerURL s2) = ?c" using r2(2) c1 by simp
    have p2: "\<not> ok2 \<longrightarrow> Proxy s2 = last (Proxy s # ?direct)" using r2(3) p1 by simp
    have run1f: "test_run net tested (False, s1, t1) pl1" using run1 f1 by simp
    have run12: "test_run net tested (ok2, s2, t2) (pl1 @ pl2)"
      by (rule test_run_seq [OF run1f run2])
    show ?thesis
    proof (cases ok2)
      case True
      then have res: "ok = True" "s' = s2" "tested' = t2" using Cons.prems tc1 f1 tc2 by simp_all
      have "test_run net tested (True, s2, t2) ((pl1 @ pl2) @ (pl3 @ pl4))"
        by (rule test_run_more) (use run12 True in simp)
      then show ?thesis unfolding plan res by simp
    next
      case f2: False
      obtain ok3 s3 t3 where tp: "try_proxies net proxyList s2 t2 = Some (ok3, s3, t3)"
        using Cons.prems tc1 f1 tc2 f2 by (auto split: option.splits)
      note r3 = try_proxies_run [OF tp]
      have run3: "test_run net t2 (ok3, s3, t3) pl3"
        using r3 c2 by (simp add: pl3_def)
      have run12f: "test_run net tested (False, s2, t2) (pl1 @ pl2)" using run12 f2 by simp
      have run123: "test_run net tested (ok3, s3, t3) ((pl1 @ pl2) @ pl3)"
        by (rule test_run_seq [OF run12f run3])
      show ?thesis
      proof (cases ok3)
        case True
        then have res: "ok = True" "s' = s3" "tested' = t3"
          using Cons.prems tc1 f1 tc2 f2 tp by simp_all
        have "test_run net tested (True, s3, t3) (((pl1 @ pl2) @ pl3) @ pl4)"
          by (rule test_run_more) (use run123 True in simp)
        then show ?thesis unfolding plan res by simp
      next
        case f3: False
        then have rest: "try_controllers net proxyList Cs s3 t3 = Some (ok, s', tested')"
          using Cons.prems tc1 f1 tc2 f2 tp by simp
        have p3: "Proxy s3 = last ?tried" using r3 f3 p2 f2 by (auto split: if_splits)
        have run4: "test_run net t3 (ok, s', tested') pl4"
          using Cons.IH [OF rest] p3 by (simp add: pl4_def)
        have run123f: "test_run net tested (False, s3, t3) ((pl1 @ pl2) @ pl3)"
          using run123 f3 by simp
        show ?thesis unfolding plan by (rule test_run_seq [OF run123f run4])
      qed
    qed
  qed
qed

lemma TestConnection_returns:
  "\<forall>h p. net h p \<noteq> RequestInvalid \<Longrightarrow> TestConnection net s tested \<noteq> None"
  by (auto simp: TestConnection_def Let_def split: conntest_exchange.splits)

lemma try_proxies_returns:
  assumes "\<forall>h p. net h p \<noteq> RequestInvalid"
  shows "try_proxies net Ps s tested \<noteq> None"
proof (induction Ps arbitrary: s tested)
  case Nil
  then show ?case by simp
next
  case (Cons P Ps)
  obtain ok1 s1 t1 where "TestConnection net (s\<lparr>Proxy := P\<rparr>) tested = Some (ok1, s1, t1)"
    using TestConnection_returns [OF assms, of "s\<lparr>Proxy := P\<rparr>" tested]
    by (cases "TestConnection net (s\<lparr>Proxy := P\<rparr>) tested") auto
  then show ?case using Cons.IH [of s1 t1] by auto
qed

lemma try_controllers_returns:
  assumes "\<forall>h p. net h p \<noteq> RequestInvalid"
  shows "try_controllers net proxyList Cs s tested \<noteq> None"
proof (induction Cs arbitrary: s tested)
  case Nil
  then show ?case by simp
next
  case (Cons C Cs)
  obtain ok1 s1 t1 where 1: "TestConnection net (s\<lparr>ControllerURL := C\<rparr>) tested = Some (ok1, s1, t1)"
    using TestConnection_returns [OF assms, of "s\<lparr>ControllerURL := C\<rparr>" tested]
    by (cases "TestConnection net (s\<lparr>ControllerURL := C\<rparr>) tested") auto
  obtain ok2 s2 t2 where 2:
    "(if uses_proxy (Proxy s1) then TestConnection net (s1\<lparr>Proxy := []\<rparr>) t1
      else Some (False, s1, t1)) = Some (ok2, s2, t2)"
    using TestConnection_returns [OF assms, of "s1\<lparr>Proxy := []\<rparr>" t1]
    by (cases "TestConnection net (s1\<lparr>Proxy := []\<rparr>) t1"; cases "uses_proxy (Proxy s1)") auto
  obtain ok3 s3 t3 where 3: "try_proxies net proxyList s2 t2 = Some (ok3, s3, t3)"
    using try_proxies_returns [OF assms, of proxyList s2 t2]
    by (cases "try_proxies net proxyList s2 t2") auto
  show ?case using 1 2 3 Cons.IH [of s3 t3] by auto
qed

text \<open>
  \<open>UpdateConnection\<close> returns, unless a URL is refused when the request is built. The pairs
  it tests are, in order and up to the trailing slashes of the controller URL, a prefix of
  \<open>tested_order\<close>: for each controller in list order the proxy held by the sender at that
  moment, then no proxy when that one is a proxy, then each proxy of the list. When it
  returns true, every pair before the last failed, the last one succeeded and is the pinned
  pair. When it returns false, every pair of that order was tested and failed, and the
  pinned pair is the one held before the call.
\<close>

lemma UpdateConnection_tested_order:
  "((\<forall>h p. net h p \<noteq> RequestInvalid) \<longrightarrow>
      UpdateConnection net s tested proxyList controllerList \<noteq> None) \<and>
   (\<forall>ok s' tested'.
      UpdateConnection net s tested proxyList controllerList = Some (ok, s', tested') \<longrightarrow>
      (\<exists>new. tested' = tested @ new \<and>
         prefix (map endpoint new)
           (map endpoint (tested_order (Proxy s) proxyList controllerList)) \<and>
         (ok \<longrightarrow>
            (\<exists>fails. new = fails @ [(ControllerURL s', Proxy s')] \<and>
               all_failed net tested fails \<and>
               conntest_succeeds net (tested @ fails) (ControllerURL s', Proxy s'))) \<and>
         (\<not> ok \<longrightarrow>
            all_failed net tested new \<and>
            map endpoint new = map endpoint (tested_order (Proxy s) proxyList controllerList) \<and>
            ControllerURL s' = ControllerURL s \<and> Proxy s' = Proxy s)))"
proof (intro conjI allI impI)
  assume "\<forall>h p. net h p \<noteq> RequestInvalid"
  then have "try_controllers net proxyList controllerList s tested \<noteq> None"
    by (rule try_controllers_returns)
  then show "UpdateConnection net s tested proxyList controllerList \<noteq> None"
    by (auto simp: UpdateConnection_def Let_def)
next
  fix ok s' tested'
  assume u: "UpdateConnection net s tested proxyList controllerList = Some (ok, s', tested')"
  let ?plan = "map endpoint (tested_order (Proxy s) proxyList controllerList)"
  obtain ok1 s1 t1 where tc: "try_controllers net proxyList controllerList s tested = Some (ok1, s1, t1)"
    using u by (auto simp: UpdateConnection_def Let_def split: option.splits)
  note run = try_controllers_run [OF tc]
  show "\<exists>new. tested' = tested @ new \<and> prefix (map endpoint new) ?plan \<and>
         (ok \<longrightarrow>
            (\<exists>fails. new = fails @ [(ControllerURL s', Proxy s')] \<and>
               all_failed net tested fails \<and>
               conntest_succeeds net (tested @ fails) (ControllerURL s', Proxy s'))) \<and>
         (\<not> ok \<longrightarrow>
            all_failed net tested new \<and> map endpoint new = ?plan \<and>
            ControllerURL s' = ControllerURL s \<and> Proxy s' = Proxy s)"
  proof (cases ok1)
    case True
    then have res: "ok = True" "s' = s1" "tested' = t1"
      using u tc by (simp_all add: UpdateConnection_def Let_def)
    show ?thesis using run True unfolding res test_run_def by auto
  next
    case False
    then have res: "ok = False" "s' = s1\<lparr>Proxy := Proxy s, ControllerURL := ControllerURL s\<rparr>"
        "tested' = t1"
      using u tc by (simp_all add: UpdateConnection_def Let_def)
    show ?thesis using run False unfolding res test_run_def by auto
  qed
qed

lemma UpdateConnection_tested_order_examples:
  "(\<forall>h p. only_b_direct h p \<noteq> RequestInvalid) \<and>
   UpdateConnection only_b_direct \<lparr>ControllerURL = ''https://a/'', Proxy = ''http://p0''\<rparr> []
     [''http://p1'', ''http://p2''] [''https://a/'', ''https://b/''] =
     Some (True, \<lparr>ControllerURL = ''https://b'', Proxy = []\<rparr>,
           [(''https://a'', ''http://p0''), (''https://a'', []), (''https://a'', ''http://p1''),
            (''https://a'', ''http://p2''), (''https://b'', ''http://p2''), (''https://b'', [])]) \<and>
   conntest_succeeds only_b_direct
     [(''https://a'', ''http://p0''), (''https://a'', []), (''https://a'', ''http://p1''),
      (''https://a'', ''http://p2''), (''https://b'', ''http://p2'')] (''https://b'', []) \<and>
   UpdateConnection only_b_direct \<lparr>ControllerURL = ''https://a/'', Proxy = ''http://p0''\<rparr> []
     [''http://p1''] [''https://a/''] =
     Some (False, \<lparr>ControllerURL = ''https://a/'', Proxy = ''http://p0''\<rparr>,
           [(''https://a'', ''http://p0''), (''https://a'', []), (''https://a'', ''http://p1'')])"
proof -
  have live: "\<forall>h p. only_b_direct h p \<noteq> RequestInvalid" by (simp add: only_b_direct_def)
  have run: "UpdateConnection only_b_direct \<lparr>ControllerURL = ''https://a/'', Proxy = ''http://p0''\<rparr> []
     [''http://p1'', ''http://p2''] [''https://a/'', ''https://b/''] =
     Some (True, \<lparr>ControllerURL = ''https://b'', Proxy = []\<rparr>,
           [(''https://a'', ''http://p0''), (''https://a'', []), (''https://a'', ''http://p1''),
            (''https://a'', ''http://p2''), (''https://b'', ''http://p2''), (''https://b'', [])])"
    by (simp add: UpdateConnection_def TestConnection_def strings_TrimSuffix_def uses_proxy_def
        strings_ToLower_def to_lower_char_def only_b_direct_def)
  have fail: "UpdateConnection only_b_direct \<lparr>ControllerURL = ''https://a/'', Proxy = ''http://p0''\<rparr> []
     [''http://p1''] [''https://a/''] =
     Some (False, \<lparr>ControllerURL = ''https://a/'', Proxy = ''http://p0''\<rparr>,
           [(''https://a'', ''http://p0''), (''https://a'', []), (''https://a'', ''http://p1'')])"
    by (simp add: UpdateConnection_def TestConnection_def strings_TrimSuffix_def uses_proxy_def
        strings_ToLower_def to_lower_char_def only_b_direct_def)
  have ok: "conntest_succeeds only_b_direct
     [(''https://a'', ''http://p0''), (''https://a'', []), (''https://a'', ''http://p1''),
      (''https://a'', ''http://p2''), (''https://b'', ''http://p2'')] (''https://b'', [])"
    by (simp add: conntest_succeeds_def only_b_direct_def)
  show ?thesis
    using UpdateConnection_tested_order
            [of only_b_direct "\<lparr>ControllerURL = ''https://a/'', Proxy = ''http://p0''\<rparr>" "[]"
               "[''http://p1'', ''http://p2'']" "[''https://a/'', ''https://b/'']"]
          live run fail ok
    by blast
qed

text \<open>
  With one controller the order tested is the order of the specification; the two part at
  the second controller.
\<close>

lemma tested_order_one_controller:
  "tested_order selected proxyList [C] = refresh_order selected proxyList [C]"
  by (simp add: refresh_order_def Let_def)

text \<open>
  Claim C5. The claim has \<open>UpdateConnection\<close> try, for each controller, the proxy selected
  when it is called first, and the code says ``test with default Proxy first''; but the
  loop over the proxy list leaves its last proxy in the sender, and the test of the next
  controller starts from that one. With the proxy \<open>http://p0\<close> selected, the proxy list
  \<open>http://p1\<close> and the controllers \<open>https://a\<close> and \<open>https://b\<close>, on a network where only
  \<open>https://b\<close> through \<open>http://p0\<close> answers, the pair \<open>(https://b, http://p0)\<close> of the
  order of the specification is never tested, \<open>(https://b, http://p1)\<close> is tested twice,
  and \<open>UpdateConnection\<close> returns false with the prior pair restored, though a pair of the
  order would have passed the check.
\<close>

theorem UpdateConnection_skips_selected_proxy:
  "UpdateConnection only_b_p0 \<lparr>ControllerURL = ''https://a'', Proxy = ''http://p0''\<rparr> []
     [''http://p1''] [''https://a'', ''https://b''] =
     Some (False, \<lparr>ControllerURL = ''https://a'', Proxy = ''http://p0''\<rparr>,
           [(''https://a'', ''http://p0''), (''https://a'', []), (''https://a'', ''http://p1''),
            (''https://b'', ''http://p1''), (''https://b'', []), (''https://b'', ''http://p1'')]) \<and>
   refresh_order ''http://p0'' [''http://p1''] [''https://a'', ''https://b''] =
     [(''https://a'', ''http://p0''), (''https://a'', []), (''https://a'', ''http://p1''),
      (''https://b'', ''http://p0''), (''https://b'', []), (''https://b'', ''http://p1'')] \<and>
   all_failed only_b_p0 []
     [(''https://a'', ''http://p0''), (''https://a'', []), (''https://a'', ''http://p1'')] \<and>
   conntest_succeeds only_b_p0
     [(''https://a'', ''http://p0''), (''https://a'', []), (''https://a'', ''http://p1'')]
     (''https://b'', ''http://p0'')"
proof -
  have run: "UpdateConnection only_b_p0 \<lparr>ControllerURL = ''https://a'', Proxy = ''http://p0''\<rparr> []
     [''http://p1''] [''https://a'', ''https://b''] =
     Some (False, \<lparr>ControllerURL = ''https://a'', Proxy = ''http://p0''\<rparr>,
           [(''https://a'', ''http://p0''), (''https://a'', []), (''https://a'', ''http://p1''),
            (''https://b'', ''http://p1''), (''https://b'', []), (''https://b'', ''http://p1'')])"
    by (simp add: UpdateConnection_def TestConnection_def strings_TrimSuffix_def uses_proxy_def
        strings_ToLower_def to_lower_char_def only_b_p0_def)
  have order: "refresh_order ''http://p0'' [''http://p1''] [''https://a'', ''https://b''] =
     [(''https://a'', ''http://p0''), (''https://a'', []), (''https://a'', ''http://p1''),
      (''https://b'', ''http://p0''), (''https://b'', []), (''https://b'', ''http://p1'')]"
    by (simp add: refresh_order_def uses_proxy_def strings_ToLower_def to_lower_char_def)
  have fails: "all_failed only_b_p0 []
     [(''https://a'', ''http://p0''), (''https://a'', []), (''https://a'', ''http://p1'')]"
    by (simp add: conntest_succeeds_def only_b_p0_def)
  have ok: "conntest_succeeds only_b_p0
     [(''https://a'', ''http://p0''), (''https://a'', []), (''https://a'', ''http://p1'')]
     (''https://b'', ''http://p0'')"
    by (simp add: conntest_succeeds_def only_b_p0_def)
  show ?thesis using run order fails ok by blast
qed

section \<open>Supervisor\<close>

text \<open>
  Claim C7. In a garbage-collect pass, for a record with status \<open>running\<close> whose uuid is
  not configured, the supervisor kills the process of that record if and only if it is
  alive under the recorded name, and marks the record complete. The code looks up
  \<open>p.ProcessID\<close> and \<open>p.ProcessName\<close>, the record of the configured plugin of the enclosing
  iteration: in the world with \<open>A\<close> configured and \<open>B\<close> orphaned it kills process 100 of
  \<open>A\<close>, leaves process 200 of \<open>B\<close> alive, and marks \<open>B\<close> complete.
\<close>

theorem PluginManager_kills_configured_process:
  "(let w' = PluginManager_plugin launch resume 1 now [plugin_A] plugin_A orphan_world
    in kills w' = [100] \<and> procs w' 100 = None \<and> procs w' 200 = Some ''b'' \<and>
       map (\<lambda>r. (row_uuid r, row_process_id r, row_status r, row_status_message r))
         (plugins (store w')) =
         [(''A'', 100, ''running'', ''running''),
          (''B'', 200, ''complete'', ''removed from configuration'')]) \<and>
   procs orphan_world 200 = Some ''b'' \<and>
   map (\<lambda>r. (row_uuid r, row_process_id r, row_process_name r, row_status r))
     (plugins (store orphan_world)) =
     [(''A'', 100, ''a'', ''running''), (''B'', 200, ''b'', ''running'')]"
  by (simp add: PluginManager_plugin_def plugin_decision_def plugin_A_def orphan_world_def
      empty_store_def running_row_def PluginSelectUUID_def PluginCreateTable_def sql_Prepare_def
      sql_Exec_def sql_Query_def zero_Plugin_def Let_def oneshot_rule_def persistent_rule_def
      periodic_rule_def IsRunning_def FindProcess_def PluginSelectStatus_def
      sql_like_contains_def strings_ToLower_def to_lower_char_def Kill_def PluginInsert_def
      sql_upsert_plugin_def row_of_Plugin_def)

text \<open>
  Within the range where the product does not wrap, a periodic plugin is launched only
  when it is not running and the time is past \<open>last_exit\<close> plus the frequency.
\<close>

lemma duration_in_range:
  fixes f :: "64 word"
  assumes "0 \<le> sint f" and "sint f \<le> 9223372036"
  shows "sint (time_Second * f) = 1000000000 * sint f"
proof -
  have s: "sint time_Second = 1000000000" by (simp add: time_Second_def)
  have "sint (time_Second * f) = signed_take_bit 63 (sint time_Second * sint f)"
    by (simp add: sint_word_ariths)
  also have "\<dots> = signed_take_bit 63 (1000000000 * sint f)" by (simp add: s)
  also have "\<dots> = 1000000000 * sint f"
    using assms by (intro signed_take_bit_int_eq_self) simp_all
  finally show ?thesis .
qed

lemma periodic_launch_in_range:
  assumes "Mode plugin0 = ''periodic''"
    and "plugin_decision currentManager now plugin0 w = Some (plugin, p, True, resumeManaging)"
    and "0 \<le> sint (LaunchFrequency plugin0)" and "sint (LaunchFrequency plugin0) \<le> 9223372036"
  shows "IsRunning plugin w = (False, None) \<and>
         LastExit p + 1000000000 * sint (LaunchFrequency plugin0) < now"
proof -
  have m: "Mode plugin0 \<noteq> ''oneshot''" "Mode plugin0 \<noteq> ''persistent''"
    using assms(1) by simp_all
  have d: "sint (time_Second * LaunchFrequency plugin0) =
           1000000000 * sint (LaunchFrequency plugin0)"
    using duration_in_range [OF assms(3,4)] .
  show ?thesis
    using assms(1,2) m d
    by (auto simp: plugin_decision_def Let_def oneshot_rule_def persistent_rule_def
        periodic_rule_def time_After_def time_Add_def
        split: prod.splits option.splits if_splits)
qed

text \<open>
  Claim C8. A periodic plugin is launched only when it is not running and the time has
  reached \<open>LastExit\<close> plus \<open>LaunchFrequency\<close> seconds. The code computes the duration as a
  product of 64-bit words: for a frequency of 9223372037 seconds it wraps to a negative
  duration, and the plugin is launched one second after it exited.
\<close>

theorem periodic_relaunch_wraps:
  "map_option (\<lambda>(plugin, p, launchPlugin, resumeManaging). (LastExit p, launchPlugin))
     (plugin_decision 1 1700000001000000000 plugin_P exited_world) =
     Some (1700000000000000000, True) \<and>
   IsRunning plugin_P exited_world = (False, None) \<and>
   (1700000001000000000 :: int) < 1700000000000000000 + 1000000000 * 9223372037 \<and>
   time_Add 1700000000000000000 (time_Second * LaunchFrequency plugin_P) =
     1700000000000000000 - 9223372036709551616"
  by (simp add: plugin_decision_def plugin_P_def exited_world_def empty_store_def
      PluginSelectUUID_def PluginCreateTable_def sql_Prepare_def sql_Exec_def sql_Query_def
      zero_Plugin_def Let_def oneshot_rule_def persistent_rule_def periodic_rule_def
      IsRunning_def FindProcess_def time_After_def time_Add_def time_Second_def)

section \<open>Adoption\<close>

lemma sql_insert_queue_row_frame:
  "plugins (fst (sql_insert_queue_row db s u)) = plugins db \<and>
   io_error (fst (sql_insert_queue_row db s u)) = io_error db"
  by (simp add: sql_insert_queue_row_def Let_def split: option.splits)

lemma MessageQueueInsert_frame:
  "plugins (fst (MessageQueueInsert db s u)) = plugins db \<and>
   io_error (fst (MessageQueueInsert db s u)) = io_error db"
proof (cases "io_error db")
  case None
  then show ?thesis by (simp add: Insert_ok sql_insert_queue_row_frame)
next
  case (Some e)
  then show ?thesis by (simp add: Insert_err)
qed

lemma MessageQueueInsert_frame_result:
  "MessageQueueInsert db s u = (db', e) \<Longrightarrow> plugins db' = plugins db \<and> io_error db' = io_error db"
  using MessageQueueInsert_frame [of db s u] by simp

lemma QueuePluginLog_frame:
  "plugins (fst (QueuePluginLog marshal offline p db)) = plugins db \<and>
   io_error (fst (QueuePluginLog marshal offline p db)) = io_error db"
  by (auto simp: QueuePluginLog_def Let_def split: prod.splits option.splits
      dest: MessageQueueInsert_frame_result)

lemma QueuePluginLog_queue:
  "message_queue (fst (QueuePluginLog marshal offline p db)) = message_queue db \<or>
   (\<not> offline \<and>
    fst (QueuePluginLog marshal offline p db) =
      fst (MessageQueueInsert db (fst (marshal (p\<lparr>CurrentManager := 0\<rparr>))) ''/core/pluginlog/''))"
  by (auto simp: QueuePluginLog_def Let_def split: prod.splits option.splits)

lemma PluginSelectUUID_frame:
  assumes "plugins db' = plugins db" and "io_error db' = io_error db"
  shows "PluginSelectUUID db' uuid = PluginSelectUUID db uuid"
  unfolding PluginSelectUUID_def PluginCreateTable_def sql_Prepare_def sql_Exec_def
    sql_Query_def assms ..

text \<open>
  Claim C9. The exit path of \<open>ResumePlugin\<close> writes nothing to the plugins table: the table,
  and so what \<open>PluginSelectUUID\<close> returns for any uuid (status and process id included), are
  what they were when the exit was observed, and the process table is untouched. The only
  change to the store is the message queued by \<open>QueuePluginLog\<close>, if any. For a run of
  \<open>ResumePlugin\<close> that adopted the process and finished, the table is the one found at the
  last poll.
\<close>

theorem ResumePlugin_exit_frame:
  "(case ResumePlugin_exit marshal offline now p w of
      (w', evs) \<Rightarrow>
        plugins (store w') = plugins (store w) \<and>
        PluginSelectUUID (store w') uuid = PluginSelectUUID (store w) uuid \<and>
        procs w' = procs w \<and> kills w' = kills w \<and>
        (message_queue (store w') = message_queue (store w) \<or>
         \<not> offline \<and>
         store w' =
           fst (MessageQueueInsert (store w)
                  (fst (marshal (p\<lparr>StatusMessage := ''exited after monitoring resumed'',
                                    LastExit := now,
                                    Status := ''exited after monitoring resumed'',
                                    CurrentManager := 0\<rparr>)))
                  ''/core/pluginlog/''))) \<and>
   (\<forall>exe w' evs.
      FindProcess w0 (ProcessID p0) = (Some exe, None) \<and>
      ResumePlugin marshal offline manager t_entry t_exit envs p0 w0 = Finished w' evs \<longrightarrow>
      (\<exists>pk wk.
         poll_loop envs (ProcessID p0)
           (p0\<lparr>Status := ''running'', StatusMessage := ''resuming control'',
                CurrentManager := manager, ProcessName := exe\<rparr>)
           (w0\<lparr>store :=
                  fst (UpdateStatus marshal offline
                         (p0\<lparr>Status := ''running'', StatusMessage := ''resuming control'',
                              CurrentManager := manager, ProcessName := exe\<rparr>)
                         (store w0))\<rparr>) = Some (pk, wk) \<and>
         plugins (store w') = plugins (store wk) \<and>
         PluginSelectUUID (store w') uuid = PluginSelectUUID (store wk) uuid))"
proof -
  have frame: "plugins (store (fst (ResumePlugin_exit marshal offline now p w))) = plugins (store w) \<and>
        PluginSelectUUID (store (fst (ResumePlugin_exit marshal offline now p w))) uuid =
          PluginSelectUUID (store w) uuid" for now p w
  proof -
    let ?p1 = "p\<lparr>StatusMessage := ''exited after monitoring resumed'', LastExit := now,
                  Status := ''exited after monitoring resumed''\<rparr>"
    have st: "store (fst (ResumePlugin_exit marshal offline now p w)) =
              fst (QueuePluginLog marshal offline ?p1 (store w))"
      by (simp add: ResumePlugin_exit_def Let_def)
    have f: "plugins (fst (QueuePluginLog marshal offline ?p1 (store w))) = plugins (store w)"
      "io_error (fst (QueuePluginLog marshal offline ?p1 (store w))) = io_error (store w)"
      using QueuePluginLog_frame [of marshal offline ?p1 "store w"] by simp_all
    show ?thesis unfolding st using f PluginSelectUUID_frame [OF f] by simp
  qed
  have q: "message_queue (store (fst (ResumePlugin_exit marshal offline now p w))) =
             message_queue (store w) \<or>
           \<not> offline \<and>
           store (fst (ResumePlugin_exit marshal offline now p w)) =
             fst (MessageQueueInsert (store w)
                  (fst (marshal (p\<lparr>StatusMessage := ''exited after monitoring resumed'',
                                    LastExit := now,
                                    Status := ''exited after monitoring resumed'',
                                    CurrentManager := 0\<rparr>)))
                  ''/core/pluginlog/'')"
    using QueuePluginLog_queue
      [of marshal offline "p\<lparr>StatusMessage := ''exited after monitoring resumed'',
            LastExit := now, Status := ''exited after monitoring resumed''\<rparr>" "store w"]
    by (simp add: ResumePlugin_exit_def Let_def)
  have rest: "procs (fst (ResumePlugin_exit marshal offline now p w)) = procs w"
    "kills (fst (ResumePlugin_exit marshal offline now p w)) = kills w"
    by (simp_all add: ResumePlugin_exit_def Let_def)
  have part1: "case ResumePlugin_exit marshal offline now p w of
      (w', evs) \<Rightarrow>
        plugins (store w') = plugins (store w) \<and>
        PluginSelectUUID (store w') uuid = PluginSelectUUID (store w) uuid \<and>
        procs w' = procs w \<and> kills w' = kills w \<and>
        (message_queue (store w') = message_queue (store w) \<or>
         \<not> offline \<and>
         store w' =
           fst (MessageQueueInsert (store w)
                  (fst (marshal (p\<lparr>StatusMessage := ''exited after monitoring resumed'',
                                    LastExit := now,
                                    Status := ''exited after monitoring resumed'',
                                    CurrentManager := 0\<rparr>)))
                  ''/core/pluginlog/''))"
    using frame [of now p w] q rest
    by (cases "ResumePlugin_exit marshal offline now p w") simp
  have part2: "\<forall>exe w' evs.
      FindProcess w0 (ProcessID p0) = (Some exe, None) \<and>
      ResumePlugin marshal offline manager t_entry t_exit envs p0 w0 = Finished w' evs \<longrightarrow>
      (\<exists>pk wk.
         poll_loop envs (ProcessID p0)
           (p0\<lparr>Status := ''running'', StatusMessage := ''resuming control'',
                CurrentManager := manager, ProcessName := exe\<rparr>)
           (w0\<lparr>store :=
                  fst (UpdateStatus marshal offline
                         (p0\<lparr>Status := ''running'', StatusMessage := ''resuming control'',
                              CurrentManager := manager, ProcessName := exe\<rparr>)
                         (store w0))\<rparr>) = Some (pk, wk) \<and>
         plugins (store w') = plugins (store wk) \<and>
         PluginSelectUUID (store w') uuid = PluginSelectUUID (store wk) uuid)"
  proof (intro allI impI)
    fix exe w' evs
    assume a: "FindProcess w0 (ProcessID p0) = (Some exe, None) \<and>
      ResumePlugin marshal offline manager t_entry t_exit envs p0 w0 = Finished w' evs"
    let ?p2 = "p0\<lparr>Status := ''running'', StatusMessage := ''resuming control'',
                CurrentManager := manager, ProcessName := exe\<rparr>"
    let ?w1 = "w0\<lparr>store := fst (UpdateStatus marshal offline ?p2 (store w0))\<rparr>"
    obtain pk wk where pl: "poll_loop envs (ProcessID p0) ?p2 ?w1 = Some (pk, wk)"
      and w': "w' = fst (ResumePlugin_exit marshal offline t_exit pk wk)"
      using a by (auto simp: ResumePlugin_def Let_def split: option.splits prod.splits)
    show "\<exists>pk wk. poll_loop envs (ProcessID p0) ?p2 ?w1 = Some (pk, wk) \<and>
         plugins (store w') = plugins (store wk) \<and>
         PluginSelectUUID (store w') uuid = PluginSelectUUID (store wk) uuid"
      using pl frame [of t_exit pk wk] unfolding w' by blast
  qed
  show ?thesis using part1 part2 by blast
qed

theorem ResumePlugin_exit_frame_witness:
  "FindProcess adopted_world (ProcessID adopted_plugin) = (Some ''a'', None) \<and>
   (case ResumePlugin brief_marshal False 9 50 60 [process_exits 100] adopted_plugin adopted_world of
      Finished w' evs \<Rightarrow>
        map (\<lambda>r. (row_uuid r, row_status r, row_process_id r)) (plugins (store w')) =
          [(''A'', ''running'', 100)] \<and>
        map post_string (message_queue (store w')) =
          [''A: running'', ''A: exited after monitoring resumed''] \<and>
        evs = [ResumeProcessCalled 100, Handshake, Handshake]
    | _ \<Rightarrow> False)"
proof -
  have f: "FindProcess adopted_world (ProcessID adopted_plugin) = (Some ''a'', None)"
    by (simp add: FindProcess_def adopted_world_def adopted_plugin_def zero_Plugin_def)
  have r: "case ResumePlugin brief_marshal False 9 50 60 [process_exits 100] adopted_plugin adopted_world of
      Finished w' evs \<Rightarrow>
        map (\<lambda>r. (row_uuid r, row_status r, row_process_id r)) (plugins (store w')) =
          [(''A'', ''running'', 100)] \<and>
        map post_string (message_queue (store w')) =
          [''A: running'', ''A: exited after monitoring resumed''] \<and>
        evs = [ResumeProcessCalled 100, Handshake, Handshake]
    | _ \<Rightarrow> False"
    by (simp add: ResumePlugin_def ResumePlugin_exit_def FindProcess_def adopted_world_def
        adopted_plugin_def zero_Plugin_def empty_store_def UpdateStatus_def QueuePluginLog_def
        PluginInsert_def PluginCreateTable_def sql_Prepare_def sql_Exec_def sql_Query_def
        sql_upsert_plugin_def row_of_Plugin_def brief_marshal_def MessageQueueInsert_def
        MessageQueueCreateTable_def sql_insert_queue_row_def sql_new_rowid_def
        rolling_queue_trigger_def QUEUE_CAP_def max_rowid_def MAX_ROWID_def process_exits_def PluginSelectUUID_def
        IsRunning_def Let_def)
  show ?thesis
    using ResumePlugin_exit_frame
            [where marshal = brief_marshal and offline = False and now = 60 and p = adopted_plugin
               and w = adopted_world and uuid = "''A''" and ?w0.0 = adopted_world
               and ?p0.0 = adopted_plugin and manager = 9 and t_entry = 50 and t_exit = 60
               and envs = "[process_exits 100]"] f r
    by blast
qed

end
